theory Spec2Isabelle
  imports Complex_Main "HOL-Library.Word"
begin

section \<open>Python strings\<close>

text \<open>
  A Python \<open>str\<close> is modelled as a \<open>string\<close>; a \<open>char\<close> stands for the code point of
  the same number, so the model covers the code points below 256. The two predicates
  below are \<open>str.isspace\<close> and \<open>str.isalnum\<close> of a single character on that range.
\<close>

definition py_isspace :: "char \<Rightarrow> bool" where
  "py_isspace c = ((of_char c :: nat) \<in> {9, 10, 11, 12, 13, 28, 29, 30, 31, 32, 133, 160})"

definition py_isalnum_char :: "char \<Rightarrow> bool" where
  "py_isalnum_char c =
     (let n = (of_char c :: nat) in
        (48 \<le> n \<and> n \<le> 57) \<or> (65 \<le> n \<and> n \<le> 90) \<or> (97 \<le> n \<and> n \<le> 122) \<or>
        n \<in> {170, 178, 179, 181, 185, 186, 188, 189, 190} \<or>
        (192 \<le> n \<and> n \<le> 214) \<or> (216 \<le> n \<and> n \<le> 246) \<or> (248 \<le> n \<and> n \<le> 255))"

text \<open>\<open>s.isalnum()\<close>: false on the empty string.\<close>

definition py_isalnum :: "string \<Rightarrow> bool" where
  "py_isalnum s = (s \<noteq> [] \<and> list_all py_isalnum_char s)"

text \<open>\<open>s.replace(' ', '')\<close>.\<close>

definition remove_spaces :: "string \<Rightarrow> string" where
  "remove_spaces s = filter (\<lambda>c. c \<noteq> CHR '' '') s"

text \<open>\<open>s.strip()\<close>: whitespace removed at both ends.\<close>

definition py_strip :: "string \<Rightarrow> string" where
  "py_strip s = rev (dropWhile py_isspace (rev (dropWhile py_isspace s)))"

section \<open>Configuration\<close>

definition SCAN_TIMEOUT :: real where "SCAN_TIMEOUT = 2.0"
definition MIN_RFID_LENGTH :: nat where "MIN_RFID_LENGTH = 6"
definition MAX_RFID_LENGTH :: nat where "MAX_RFID_LENGTH = 20"

section \<open>Validation\<close>

text \<open>\<open>RFIDListener.is_valid_rfid\<close> of rfid_listener.py.\<close>

definition is_valid_rfid :: "string \<Rightarrow> bool" where
  "is_valid_rfid rfid =
     (if rfid = [] then False
      else if length rfid < MIN_RFID_LENGTH \<or> length rfid > MAX_RFID_LENGTH then False
      else if \<not> py_isalnum (remove_spaces rfid) then False
      else True)"

text \<open>\<open>EnhancedRFIDListener.is_valid_rfid\<close> of rfid_listener_enhanced.py.\<close>

definition enh_is_valid_rfid :: "string \<Rightarrow> bool" where
  "enh_is_valid_rfid rfid =
     (if rfid = [] \<or> length rfid < MIN_RFID_LENGTH \<or> length rfid > MAX_RFID_LENGTH then False
      else py_isalnum (remove_spaces rfid))"

text \<open>
  The shape rule in the words of the specification: length in the closed interval
  [6, 20] and, after removing spaces, every remaining character alphanumeric.
\<close>

definition spec_shape_rule :: "string \<Rightarrow> bool" where
  "spec_shape_rule s =
     (6 \<le> length s \<and> length s \<le> 20 \<and> list_all py_isalnum_char (remove_spaces s))"

section \<open>Observable effects\<close>

datatype level = DEBUG | INFO | WARNING | ERROR

datatype exn = PermissionError | RequestException | OtherException

text \<open>The keyword arguments of \<open>requests.post\<close>.\<close>

record request =
  req_url :: string
  req_json_rfid :: string
  req_timeout :: nat
  req_content_type :: string

text \<open>
  What \<open>response.json()\<close> holds for the listener: the truth value of
  \<open>result.get('mapped')\<close>, \<open>result.get('music_dir')\<close> and the truth value of
  \<open>result.get('playback_triggered')\<close>. In a response, \<open>resp_json\<close> is the exception
  instead when decoding the body or reading these keys raises.
\<close>

record reply =
  mapped :: bool
  music_dir :: "string option"
  playback_triggered :: bool

record response =
  status_code :: nat
  resp_text :: string
  resp_json :: "exn + reply"

datatype msg =
    Invalid_format string
  | Ignoring_duplicate string
  | Processing_scan string
  | Mapped_to string "string option"
  | Playback_ok
  | Playback_failed
  | Not_mapped string
  | Bad_status nat string
  | Comm_error exn
  | Unexpected_error exn
  | Processing_buffered string
  | Stdin_error exn
  | Read_event_error exn
  | Searching_for_device
  | Found_reader string
  | Device_info string
  | Proc_devices_error exn
  | Found_via_by_id string
  | Auto_detection_failed
  | Available_device string
  | Testing_device string
  | Device_opened
  | Device_producing_input
  | No_input_within_timeout
  | Permission_denied string
  | Try_usermod
  | Then_relogin
  | Probe_error string exn
  | Listener_starting
  | Using_device_input string
  | Device_test_failed
  | No_device_detected
  | Make_sure_focus

text \<open>
  \<open>Candidate c\<close> records the call \<open>process_scan(c)\<close> with its argument, \<open>Post r\<close> the
  call \<open>requests.post\<close> and \<open>Log\<close> a call of the logger.
\<close>

datatype event = Candidate string | Log level msg | Post request

text \<open>
  The world at the moment a scan is processed: the reading of \<open>time.time()\<close> and the
  behaviour of the network, which either raises or answers.
\<close>

record world =
  clock :: real
  http_post :: "request \<Rightarrow> exn + response"

fun posts :: "event list \<Rightarrow> request list" where
  "posts [] = []"
| "posts (Post r # evs) = r # posts evs"
| "posts (Log l m # evs) = posts evs"
| "posts (Candidate c # evs) = posts evs"

definition deliveries :: "event list \<Rightarrow> string list" where
  "deliveries evs = map req_json_rfid (posts evs)"

fun candidates :: "event list \<Rightarrow> string list" where
  "candidates [] = []"
| "candidates (Candidate c # evs) = c # candidates evs"
| "candidates (Log l m # evs) = candidates evs"
| "candidates (Post r # evs) = candidates evs"

section \<open>Processing one scan\<close>

text \<open>The state both listeners keep between scans.\<close>

record listener =
  flask_url :: string
  running :: bool
  last_scan_time :: real

definition mk_request :: "string \<Rightarrow> string \<Rightarrow> request" where
  "mk_request u rfid =
     \<lparr>req_url = u, req_json_rfid = rfid, req_timeout = 5,
      req_content_type = ''application/json''\<rparr>"

text \<open>The body of the \<open>try\<close> of \<open>RFIDListener.process_scan\<close>, after the request was sent.\<close>

definition interpret_response :: "string \<Rightarrow> exn + response \<Rightarrow> event list" where
  "interpret_response rfid out =
     (case out of
        Inl e \<Rightarrow> (if e = RequestException then [Log ERROR (Comm_error e)]
                  else [Log ERROR (Unexpected_error e)])
      | Inr r \<Rightarrow>
          (if status_code r = 200 then
             (case resp_json r of
                Inl e \<Rightarrow> (if e = RequestException then [Log ERROR (Comm_error e)]
                          else [Log ERROR (Unexpected_error e)])
              | Inr res \<Rightarrow>
                  (if mapped res then
                     Log INFO (Mapped_to rfid (music_dir res)) #
                     (if playback_triggered res then [Log INFO Playback_ok]
                      else [Log WARNING Playback_failed])
                   else [Log INFO (Not_mapped rfid)]))
           else [Log ERROR (Bad_status (status_code r) (resp_text r))]))"

text \<open>
  \<open>RFIDListener.process_scan\<close>. The result is the listener after the call and the
  effects of the call in order.
\<close>

definition process_scan :: "world \<Rightarrow> string \<Rightarrow> 'a listener_scheme \<Rightarrow> 'a listener_scheme \<times> event list" where
  "process_scan w rfid_data st =
     (let rfid = py_strip rfid_data in
      if \<not> is_valid_rfid rfid then (st, [Candidate rfid_data, Log WARNING (Invalid_format rfid)])
      else
        let current_time = clock w in
        if current_time - last_scan_time st < 1.0
        then (st, [Candidate rfid_data, Log DEBUG (Ignoring_duplicate rfid)])
        else
          let st' = st\<lparr>last_scan_time := current_time\<rparr>;
              payload = mk_request (flask_url st') rfid
          in (st', Candidate rfid_data # Log INFO (Processing_scan rfid) # Post payload #
                   interpret_response rfid (http_post w payload)))"

text \<open>
  \<open>EnhancedRFIDListener.process_scan\<close>: one \<open>except Exception\<close> clause for every
  exception.
\<close>

definition enh_interpret_response :: "string \<Rightarrow> exn + response \<Rightarrow> event list" where
  "enh_interpret_response rfid out =
     (case out of
        Inl e \<Rightarrow> [Log ERROR (Unexpected_error e)]
      | Inr r \<Rightarrow>
          (if status_code r = 200 then
             (case resp_json r of
                Inl e \<Rightarrow> [Log ERROR (Unexpected_error e)]
              | Inr res \<Rightarrow>
                  (if mapped res then
                     Log INFO (Mapped_to rfid (music_dir res)) #
                     (if playback_triggered res then [Log INFO Playback_ok]
                      else [Log WARNING Playback_failed])
                   else [Log INFO (Not_mapped rfid)]))
           else [Log ERROR (Bad_status (status_code r) (resp_text r))]))"

definition enh_process_scan :: "world \<Rightarrow> string \<Rightarrow> 'a listener_scheme \<Rightarrow> 'a listener_scheme \<times> event list" where
  "enh_process_scan w rfid_data st =
     (let rfid = py_strip rfid_data in
      if \<not> enh_is_valid_rfid rfid then (st, [Candidate rfid_data, Log WARNING (Invalid_format rfid)])
      else
        let current_time = clock w in
        if current_time - last_scan_time st < 1.0
        then (st, [Candidate rfid_data, Log DEBUG (Ignoring_duplicate rfid)])
        else
          let st' = st\<lparr>last_scan_time := current_time\<rparr>;
              payload = mk_request (flask_url st') rfid
          in (st', Candidate rfid_data # Log INFO (Processing_scan rfid) # Post payload #
                   enh_interpret_response rfid (http_post w payload)))"

section \<open>Scans in sequence\<close>

text \<open>
  The clock readings at which a listener that processes the given scans in order
  accepts one, that is, sends it. The first argument is the \<open>process_scan\<close> in use.
\<close>

fun acceptance_times ::
  "(world \<Rightarrow> string \<Rightarrow> listener \<Rightarrow> listener \<times> event list) \<Rightarrow> listener \<Rightarrow>
   (world \<times> string) list \<Rightarrow> real list" where
  "acceptance_times ps st [] = []"
| "acceptance_times ps st ((w, c) # xs) =
     (let (st', evs) = ps w c st
      in (if posts evs \<noteq> [] then [clock w] else []) @ acceptance_times ps st' xs)"

section \<open>The scan assembler of rfid_listener.py\<close>

record rfid_listener = listener +
  scan_buffer :: string
  scan_timer :: "nat option"

text \<open>
  \<open>threading.Timer\<close>: the timers that were started and have neither fired nor been
  cancelled, each with its handle and the time it is due, and the next unused handle.
  \<open>scan_timer\<close> of the listener holds a handle. A timer that fires runs
  \<open>flush_scan_buffer\<close> on a thread of its own, which blocks in \<open>requests.post\<close>;
  \<open>in_flight\<close> holds the callbacks that are blocked there, each with the handle of its
  timer and the request it has sent.
\<close>

record machine = rfid_listener +
  active_timers :: "(nat \<times> real) list"
  fresh_timer :: nat
  in_flight :: "(nat \<times> request) list"

text \<open>\<open>str\<close> of a natural number, for the port in the URL and the names of the event devices.\<close>

fun digit_char :: "nat \<Rightarrow> char" where
  "digit_char n = ''0123456789'' ! n"

fun str_nat :: "nat \<Rightarrow> string" where
  "str_nat n = (if n < 10 then [digit_char n] else str_nat (n div 10) @ [digit_char (n mod 10)])"

declare str_nat.simps [simp del]

text \<open>\<open>RFIDListener.__init__\<close>, with no timer started.\<close>

definition RFIDListener_init :: "string \<Rightarrow> nat \<Rightarrow> machine" where
  "RFIDListener_init flask_host flask_port =
     \<lparr>flask_url = ''http://'' @ flask_host @ '':'' @ str_nat flask_port @ ''/scan'',
      running = False, last_scan_time = 0, scan_buffer = [], scan_timer = None,
      active_timers = [], fresh_timer = 0, in_flight = []\<rparr>"

text \<open>\<open>timer.cancel()\<close>: without effect on a timer that is no longer active.\<close>

definition timer_cancel :: "nat \<Rightarrow> 'a machine_scheme \<Rightarrow> 'a machine_scheme" where
  "timer_cancel h st = st\<lparr>active_timers := filter (\<lambda>(i, d). i \<noteq> h) (active_timers st)\<rparr>"

text \<open>
  \<open>self.scan_timer = threading.Timer(interval, self.flush_scan_buffer)\<close> followed by
  \<open>self.scan_timer.start()\<close> at the time \<open>now\<close>.
\<close>

definition timer_start :: "real \<Rightarrow> real \<Rightarrow> 'a machine_scheme \<Rightarrow> 'a machine_scheme" where
  "timer_start interval now st =
     st\<lparr>scan_timer := Some (fresh_timer st),
        active_timers := active_timers st @ [(fresh_timer st, now + interval)],
        fresh_timer := Suc (fresh_timer st)\<rparr>"

definition flush_scan_buffer :: "world \<Rightarrow> 'a machine_scheme \<Rightarrow> 'a machine_scheme \<times> event list" where
  "flush_scan_buffer w st =
     (let (st1, evs) =
        (if scan_buffer st \<noteq> [] then
           (let (st', evs') = process_scan w (scan_buffer st) st
            in (st'\<lparr>scan_buffer := []\<rparr>,
                Log DEBUG (Processing_buffered (scan_buffer st)) # evs'))
         else (st, []))
      in (st1\<lparr>scan_timer := None\<rparr>, evs))"

definition handle_input_char :: "world \<Rightarrow> char \<Rightarrow> 'a machine_scheme \<Rightarrow> 'a machine_scheme \<times> event list" where
  "handle_input_char w char st =
     (if char = CHR 0x0A \<or> char = CHR 0x0D then
        (let st1 = (case scan_timer st of
                      Some h \<Rightarrow> (timer_cancel h st)\<lparr>scan_timer := None\<rparr>
                    | None \<Rightarrow> st)
         in if scan_buffer st1 \<noteq> [] then
              (let (st2, evs) = process_scan w (scan_buffer st1) st1
               in (st2\<lparr>scan_buffer := []\<rparr>, evs))
            else (st1, []))
      else
        (let st1 = st\<lparr>scan_buffer := scan_buffer st @ [char]\<rparr>;
             st2 = (case scan_timer st1 of Some h \<Rightarrow> timer_cancel h st1 | None \<Rightarrow> st1)
         in (timer_start SCAN_TIMEOUT (clock w) st2, [])))"

text \<open>
  \<open>process_scan\<close> in two parts, cut where the thread blocks: up to and including the call
  of \<open>requests.post\<close> (the listener, the effects so far and the request, if one is sent),
  and from the return of that call on.
\<close>

definition scan_until_post ::
  "world \<Rightarrow> string \<Rightarrow> 'a listener_scheme \<Rightarrow> 'a listener_scheme \<times> event list \<times> request option" where
  "scan_until_post w rfid_data st =
     (let rfid = py_strip rfid_data in
      if \<not> is_valid_rfid rfid
      then (st, [Candidate rfid_data, Log WARNING (Invalid_format rfid)], None)
      else
        let current_time = clock w in
        if current_time - last_scan_time st < 1.0
        then (st, [Candidate rfid_data, Log DEBUG (Ignoring_duplicate rfid)], None)
        else
          let st' = st\<lparr>last_scan_time := current_time\<rparr>;
              payload = mk_request (flask_url st') rfid
          in (st', [Candidate rfid_data, Log INFO (Processing_scan rfid), Post payload],
              Some payload))"

definition scan_after_post :: "world \<Rightarrow> request \<Rightarrow> event list" where
  "scan_after_post w payload = interpret_response (req_json_rfid payload) (http_post w payload)"

text \<open>
  The timer with handle \<open>h\<close> fires at the time \<open>clock w\<close>, if it is active and due, and
  is no longer active then. Its thread runs \<open>flush_scan_buffer\<close> up to the call of
  \<open>requests.post\<close>, where it blocks with \<open>scan_buffer\<close> and \<open>scan_timer\<close> not yet reset;
  when no request is sent, it runs \<open>flush_scan_buffer\<close> to its end.
\<close>

definition callback_begins :: "world \<Rightarrow> nat \<Rightarrow> 'a machine_scheme \<Rightarrow> 'a machine_scheme \<times> event list" where
  "callback_begins w h st =
     (if list_ex (\<lambda>(i, d). i = h \<and> d \<le> clock w) (active_timers st) then
        (let st0 = timer_cancel h st in
         if scan_buffer st0 \<noteq> [] then
           (case scan_until_post w (scan_buffer st0) st0 of
              (st1, evs, Some payload) \<Rightarrow>
                (st1\<lparr>in_flight := in_flight st1 @ [(h, payload)]\<rparr>,
                 Log DEBUG (Processing_buffered (scan_buffer st0)) # evs)
            | (st1, evs, None) \<Rightarrow>
                (st1\<lparr>scan_buffer := [], scan_timer := None\<rparr>,
                 Log DEBUG (Processing_buffered (scan_buffer st0)) # evs))
         else (st0\<lparr>scan_timer := None\<rparr>, []))
      else (st, []))"

text \<open>
  The request of the callback of timer \<open>h\<close> returns at the time \<open>clock w\<close>: the callback
  logs the outcome and goes on to \<open>self.scan_buffer = ""\<close> and \<open>self.scan_timer = None\<close>,
  whatever the reader thread has done to them meanwhile.
\<close>

definition callback_ends :: "world \<Rightarrow> nat \<Rightarrow> 'a machine_scheme \<Rightarrow> 'a machine_scheme \<times> event list" where
  "callback_ends w h st =
     (case map_of (in_flight st) h of
        None \<Rightarrow> (st, [])
      | Some payload \<Rightarrow>
          (st\<lparr>in_flight := filter (\<lambda>(i, p). i \<noteq> h) (in_flight st),
              scan_buffer := [], scan_timer := None\<rparr>,
           scan_after_post w payload))"

text \<open>
  What happens to the listener, in the order in which it happens: the reader thread
  handles a character (taken as one step), a timer fires, or the request of a callback
  returns. Characters can be handled between the last two, since the source takes no
  lock.
\<close>

datatype stimulus = Char_read char | Timer_expires nat | Post_returns nat

fun react :: "world \<Rightarrow> stimulus \<Rightarrow> 'a machine_scheme \<Rightarrow> 'a machine_scheme \<times> event list" where
  "react w (Char_read c) st = handle_input_char w c st"
| "react w (Timer_expires h) st = callback_begins w h st"
| "react w (Post_returns h) st = callback_ends w h st"

fun run :: "'a machine_scheme \<Rightarrow> (world \<times> stimulus) list \<Rightarrow> 'a machine_scheme \<times> event list" where
  "run st [] = (st, [])"
| "run st ((w, x) # xs) =
     (let (st1, evs1) = react w x st; (st2, evs2) = run st1 xs in (st2, evs1 @ evs2))"

text \<open>At most one timer is active, and it is the one the listener holds.\<close>

definition single_pending :: "'a machine_scheme \<Rightarrow> bool" where
  "single_pending st =
     (case scan_timer st of
        None \<Rightarrow> active_timers st = []
      | Some h \<Rightarrow> h < fresh_timer st \<and> (case active_timers st of [(i, d)] \<Rightarrow> i = h | _ \<Rightarrow> False))"

text \<open>
  Characters arriving at given times with nothing else happening in between, and every
  request answered before the next character arrives: before a character is handled,
  the active timers that are due by then have fired, each at the time it is due, and
  their callbacks have run to their end.
\<close>

definition expire_due :: "world \<Rightarrow> 'a machine_scheme \<Rightarrow> 'a machine_scheme \<times> event list" where
  "expire_due w st =
     fold (\<lambda>(h, d) (s, evs).
             if d \<le> clock w
             then (let (s1, evs1) = callback_begins (w\<lparr>clock := d\<rparr>) h s;
                       (s2, evs2) = callback_ends (w\<lparr>clock := d\<rparr>) h s1
                   in (s2, evs @ evs1 @ evs2))
             else (s, evs))
          (active_timers st) (st, [])"

fun run_timed :: "'a machine_scheme \<Rightarrow> (world \<times> char) list \<Rightarrow> 'a machine_scheme \<times> event list" where
  "run_timed st [] = (st, [])"
| "run_timed st ((w, c) # xs) =
     (let (st1, evs1) = expire_due w st;
          (st2, evs2) = handle_input_char w c st1;
          (st3, evs3) = run_timed st2 xs
      in (st3, evs1 @ evs2 @ evs3))"

text \<open>The characters \<open>handle_input_char\<close> and the stdin loop take for the end of a scan.\<close>

definition terminator :: "char \<Rightarrow> bool" where
  "terminator c = (c = CHR 0x0A \<or> c = CHR 0x0D)"

section \<open>The read loops of rfid_listener_enhanced.py\<close>

text \<open>
  The record \<open>struct.unpack('llHHI', data)\<close> decodes: two signed 64-bit time stamps, a
  16-bit type, a 16-bit code and a 32-bit value, 24 bytes in all, least significant byte
  first (the native layout the source's comment gives).
\<close>

type_synonym byte = "8 word"

record input_event =
  ev_sec :: int
  ev_usec :: int
  event_type :: nat
  code :: nat
  ev_value :: nat

text \<open>\<open>struct.calcsize('llHHI')\<close>.\<close>

definition event_size :: nat where
  "event_size = 24"

fun le_nat :: "byte list \<Rightarrow> nat" where
  "le_nat [] = 0"
| "le_nat (b # bs) = unat b + 256 * le_nat bs"

definition signed64 :: "nat \<Rightarrow> int" where
  "signed64 n = (if n < 2 ^ 63 then int n else int n - 2 ^ 64)"

definition unpack :: "byte list \<Rightarrow> input_event" where
  "unpack data =
     \<lparr>ev_sec = signed64 (le_nat (take 8 data)),
      ev_usec = signed64 (le_nat (take 8 (drop 8 data))),
      event_type = le_nat (take 2 (drop 16 data)),
      code = le_nat (take 2 (drop 18 data)),
      ev_value = le_nat (take 4 (drop 20 data))\<rparr>"

text \<open>The dictionary of \<open>keycode_to_char\<close>; \<open>keymap.get(keycode, '')\<close> is empty on a miss.\<close>

definition keymap :: "(nat \<times> string) list" where
  "keymap =
     [(2, ''1''), (3, ''2''), (4, ''3''), (5, ''4''), (6, ''5''),
      (7, ''6''), (8, ''7''), (9, ''8''), (10, ''9''), (11, ''0''),
      (16, ''q''), (17, ''w''), (18, ''e''), (19, ''r''), (20, ''t''),
      (21, ''y''), (22, ''u''), (23, ''i''), (24, ''o''), (25, ''p''),
      (30, ''a''), (31, ''s''), (32, ''d''), (33, ''f''), (34, ''g''),
      (35, ''h''), (36, ''j''), (37, ''k''), (38, ''l''),
      (44, ''z''), (45, ''x''), (46, ''c''), (47, ''v''), (48, ''b''),
      (49, ''n''), (50, ''m''),
      (28, [CHR 0x0A])]"

definition keycode_to_char :: "nat \<Rightarrow> string" where
  "keycode_to_char keycode = (case map_of keymap keycode of Some s \<Rightarrow> s | None \<Rightarrow> [])"

text \<open>The listener of rfid_listener_enhanced.py.\<close>

record enh_listener = listener +
  device_path :: "string option"

definition EnhancedRFIDListener_init :: "string \<Rightarrow> nat \<Rightarrow> enh_listener" where
  "EnhancedRFIDListener_init flask_host flask_port =
     \<lparr>flask_url = ''http://'' @ flask_host @ '':'' @ str_nat flask_port @ ''/scan'',
      running = False, last_scan_time = 0, device_path = None\<rparr>"

text \<open>
  One turn of the loop of \<open>read_rfid_from_device\<close> on what \<open>device.read\<close> gave (or
  raised), with the listener and the local \<open>scan_buffer\<close>.
\<close>

definition device_body ::
  "world \<Rightarrow> exn + byte list \<Rightarrow> 'a listener_scheme \<times> string \<Rightarrow>
   ('a listener_scheme \<times> string) \<times> event list" where
  "device_body w r s =
     (case s of (st, scan_buf) \<Rightarrow>
        (case r of
           Inl e \<Rightarrow> ((st, scan_buf), [Log ERROR (Read_event_error e)])
         | Inr event_data \<Rightarrow>
             if length event_data = event_size then
               (let ev = unpack event_data in
                if event_type ev = 1 \<and> ev_value ev = 1 then
                  (let char = keycode_to_char (code ev) in
                   if char \<noteq> [] then
                     (if char = [CHR 0x0A] then
                        (if py_strip scan_buf \<noteq> [] then
                           (let (st', evs) = enh_process_scan w (py_strip scan_buf) st
                            in ((st', []), evs))
                         else ((st, scan_buf), []))
                      else ((st, scan_buf @ char), []))
                   else ((st, scan_buf), []))
                else ((st, scan_buf), []))
             else ((st, scan_buf), [])))"

text \<open>
  The loops run over the reads that happen while they run, each with the world at
  that moment.
\<close>

fun read_rfid_from_device ::
  "'a listener_scheme \<times> string \<Rightarrow> (world \<times> (exn + byte list)) list \<Rightarrow>
   ('a listener_scheme \<times> string) \<times> event list" where
  "read_rfid_from_device s [] = (s, [])"
| "read_rfid_from_device s ((w, r) # rs) =
     (if running (fst s) then
        (let (s1, evs1) = device_body w r s;
             (s2, evs2) = read_rfid_from_device s1 rs
         in (s2, evs1 @ evs2))
      else (s, []))"

text \<open>
  \<open>read_rfid_from_stdin\<close>: a read gives one character, or nothing at end of input; an
  exception ends the loop.
\<close>

fun read_rfid_from_stdin ::
  "'a listener_scheme \<times> string \<Rightarrow> (world \<times> (exn + char option)) list \<Rightarrow>
   ('a listener_scheme \<times> string) \<times> event list" where
  "read_rfid_from_stdin s [] = (s, [])"
| "read_rfid_from_stdin (st, scan_buf) ((w, r) # rs) =
     (if running st then
        (case r of
           Inl e \<Rightarrow> ((st, scan_buf), [Log ERROR (Stdin_error e)])
         | Inr None \<Rightarrow> read_rfid_from_stdin (st, scan_buf) rs
         | Inr (Some char) \<Rightarrow>
             if char = CHR 0x0A \<or> char = CHR 0x0D then
               (if py_strip scan_buf \<noteq> [] then
                  (let (st', evs1) = enh_process_scan w (py_strip scan_buf) st;
                       (s2, evs2) = read_rfid_from_stdin (st', []) rs
                   in (s2, evs1 @ evs2))
                else read_rfid_from_stdin (st, scan_buf) rs)
             else read_rfid_from_stdin (st, scan_buf @ [char]) rs)
      else ((st, scan_buf), []))"

text \<open>What a record read from the device amounts to on stdin.\<close>

definition as_stdin :: "byte list \<Rightarrow> char option" where
  "as_stdin d =
     (if length d = event_size \<and> event_type (unpack d) = 1 \<and> ev_value (unpack d) = 1
      then (case keycode_to_char (code (unpack d)) of [] \<Rightarrow> None | c # cs \<Rightarrow> Some c)
      else None)"

section \<open>The device locator\<close>

text \<open>
  The patterns of \<open>RFID_READER_PATTERNS\<close> are plain text, or two pieces of plain text
  with \<open>.*\<close> between them. \<open>re.search\<close> with \<open>re.IGNORECASE\<close> looks for the pattern at
  every position; \<open>.\<close> matches every character but the newline.
\<close>

datatype pattern = Lit string | Gap string string

definition RFID_READER_PATTERNS :: "pattern list" where
  "RFID_READER_PATTERNS =
     [Gap ''OKE'' ''Electron'', Gap ''Chic'' ''Technology'', Lit ''05fe:1010'', Lit ''RFID'',
      Gap ''Card'' ''Reader'']"

definition ascii_letter :: "char \<Rightarrow> bool" where
  "ascii_letter c =
     (let n = (of_char c :: nat) in (65 \<le> n \<and> n \<le> 90) \<or> (97 \<le> n \<and> n \<le> 122))"

text \<open>Equality of two characters when case is ignored.\<close>

definition eq_ic :: "char \<Rightarrow> char \<Rightarrow> bool" where
  "eq_ic a b =
     (if a = b then True
      else if ascii_letter a \<and> ascii_letter b
      then (of_char a :: nat) mod 32 = (of_char b :: nat) mod 32
      else False)"

fun prefix_ic :: "string \<Rightarrow> string \<Rightarrow> bool" where
  "prefix_ic [] s = True"
| "prefix_ic (p # ps) [] = False"
| "prefix_ic (p # ps) (c # cs) = (if eq_ic p c then prefix_ic ps cs else False)"

fun search_lit :: "string \<Rightarrow> string \<Rightarrow> bool" where
  "search_lit p [] = prefix_ic p []"
| "search_lit p (c # cs) = (if prefix_ic p (c # cs) then True else search_lit p cs)"

text \<open>The second piece after any number of characters other than the newline.\<close>

fun gap_then :: "string \<Rightarrow> string \<Rightarrow> bool" where
  "gap_then b [] = prefix_ic b []"
| "gap_then b (c # cs) =
     (if prefix_ic b (c # cs) then True
      else if c = CHR 0x0A then False
      else gap_then b cs)"

fun search_gap :: "string \<Rightarrow> string \<Rightarrow> string \<Rightarrow> bool" where
  "search_gap a b [] = (prefix_ic a [] \<and> gap_then b [])"
| "search_gap a b (c # cs) =
     (if prefix_ic a (c # cs) then
        (if gap_then b (drop (length a) (c # cs)) then True else search_gap a b cs)
      else search_gap a b cs)"

fun re_search :: "pattern \<Rightarrow> string \<Rightarrow> bool" where
  "re_search (Lit p) s = search_lit p s"
| "re_search (Gap a b) s = search_gap a b s"

text \<open>
  The first element of \<open>re.findall(r'H: Handlers=.*?(event\d+)', device_block)\<close>, if
  there is one.
\<close>

definition is_digit :: "char \<Rightarrow> bool" where
  "is_digit c = (48 \<le> (of_char c :: nat) \<and> (of_char c :: nat) \<le> 57)"

definition event_at :: "string \<Rightarrow> string option" where
  "event_at s =
     (if take 5 s = ''event'' \<and> takeWhile is_digit (drop 5 s) \<noteq> []
      then Some (''event'' @ takeWhile is_digit (drop 5 s)) else None)"

fun lazy_event :: "string \<Rightarrow> string option" where
  "lazy_event [] = None"
| "lazy_event (c # cs) =
     (case event_at (c # cs) of
        Some e \<Rightarrow> Some e
      | None \<Rightarrow> if c = CHR 0x0A then None else lazy_event cs)"

fun first_handler :: "string \<Rightarrow> string option" where
  "first_handler [] = None"
| "first_handler (c # cs) =
     (if take 12 (c # cs) = ''H: Handlers='' then
        (case lazy_event (drop 12 (c # cs)) of
           Some e \<Rightarrow> Some e
         | None \<Rightarrow> first_handler cs)
      else first_handler cs)"

text \<open>\<open>content.split('\n\n')\<close>, the first argument being the block read so far, reversed.\<close>

fun split_blank :: "string \<Rightarrow> string \<Rightarrow> string list" where
  "split_blank acc [] = [rev acc]"
| "split_blank acc [c] = [rev (c # acc)]"
| "split_blank acc (c # d # cs) =
     (if c = CHR 0x0A \<and> d = CHR 0x0A then rev acc # split_blank [] cs
      else split_blank (c # acc) (d # cs))"

text \<open>\<open>s.split()\<close>: the words between runs of whitespace.\<close>

fun split_ws :: "string \<Rightarrow> string \<Rightarrow> string list" where
  "split_ws acc [] = (if acc = [] then [] else [rev acc])"
| "split_ws acc (c # cs) =
     (if py_isspace c then (if acc = [] then split_ws [] cs else rev acc # split_ws [] cs)
      else split_ws (c # acc) cs)"

text \<open>
  What the locator sees of the machine: the content of /proc/bus/input/devices (or the
  exception on reading it), \<open>os.path.exists\<close>, \<open>os.listdir\<close> and \<open>os.path.realpath\<close>.
\<close>

record fs =
  proc_devices :: "exn + string"
  path_exists :: "string \<Rightarrow> bool"
  listdir :: "string \<Rightarrow> exn + string list"
  realpath :: "string \<Rightarrow> string"

definition by_id_path :: string where
  "by_id_path = ''/dev/input/by-id''"

text \<open>\<open>os.path.join\<close> of a directory without a final slash and a name.\<close>

definition path_join :: "string \<Rightarrow> string \<Rightarrow> string" where
  "path_join a b = (if b \<noteq> [] \<and> hd b = CHR ''/'' then b else a @ ''/'' @ b)"

text \<open>The loop over the patterns for one device block of the registry.\<close>

fun scan_patterns :: "fs \<Rightarrow> string \<Rightarrow> pattern list \<Rightarrow> string option" where
  "scan_patterns f device_block [] = None"
| "scan_patterns f device_block (pat # pats) =
     (if re_search pat device_block then
        (case first_handler device_block of
           Some event_device \<Rightarrow>
             (let dev_path = ''/dev/input/'' @ event_device
              in if path_exists f dev_path then Some dev_path
                 else scan_patterns f device_block pats)
         | None \<Rightarrow> scan_patterns f device_block pats)
      else scan_patterns f device_block pats)"

fun scan_devices :: "fs \<Rightarrow> string list \<Rightarrow> (string \<times> string) option" where
  "scan_devices f [] = None"
| "scan_devices f (device_block # devices) =
     (case scan_patterns f device_block RFID_READER_PATTERNS of
        Some dev_path \<Rightarrow> Some (dev_path, device_block)
      | None \<Rightarrow> scan_devices f devices)"

text \<open>The loop over the patterns for one entry of the by-id directory.\<close>

fun scan_link :: "fs \<Rightarrow> string \<Rightarrow> pattern list \<Rightarrow> string option" where
  "scan_link f device_link [] = None"
| "scan_link f device_link (pat # pats) =
     (if re_search pat device_link then
        (let dev_path = path_join by_id_path device_link
         in if path_exists f dev_path then Some (realpath f dev_path)
            else scan_link f device_link pats)
      else scan_link f device_link pats)"

fun scan_links :: "fs \<Rightarrow> string list \<Rightarrow> string option" where
  "scan_links f [] = None"
| "scan_links f (device_link # links) =
     (case scan_link f device_link RFID_READER_PATTERNS of
        Some real_path \<Rightarrow> Some real_path
      | None \<Rightarrow> scan_links f links)"

definition event_path :: "nat \<Rightarrow> string" where
  "event_path i = ''/dev/input/event'' @ str_nat i"

text \<open>The third method: event0 to event19 are listed when they exist, none is chosen.\<close>

definition list_common_devices :: "fs \<Rightarrow> event list" where
  "list_common_devices f =
     Log WARNING Auto_detection_failed #
     map (\<lambda>i. Log INFO (Available_device (event_path i)))
       (filter (\<lambda>i. path_exists f (event_path i)) [0..<20])"

text \<open>
  \<open>find_rfid_device\<close>: the path found, if any, or the exception that \<open>os.listdir\<close>
  raised, which the function does not catch.
\<close>

definition find_rfid_device :: "fs \<Rightarrow> (exn + string option) \<times> event list" where
  "find_rfid_device f =
     (let (found, evs1) =
        (case proc_devices f of
           Inl e \<Rightarrow> (None, [Log WARNING (Proc_devices_error e)])
         | Inr content \<Rightarrow>
             (case scan_devices f (split_blank [] content) of
                Some (dev_path, device_block) \<Rightarrow>
                  (Some dev_path,
                   [Log INFO (Found_reader dev_path),
                    Log INFO (Device_info
                      (if length (split_ws [] device_block) > 1
                       then split_ws [] device_block ! 1 else ''Unknown''))])
              | None \<Rightarrow> (None, [])))
      in case found of
           Some dev_path \<Rightarrow> (Inr (Some dev_path), Log INFO Searching_for_device # evs1)
         | None \<Rightarrow>
             (if path_exists f by_id_path then
                (case listdir f by_id_path of
                   Inl e \<Rightarrow> (Inl e, Log INFO Searching_for_device # evs1)
                 | Inr links \<Rightarrow>
                     (case scan_links f links of
                        Some real_path \<Rightarrow>
                          (Inr (Some real_path),
                           Log INFO Searching_for_device # evs1 @
                           [Log INFO (Found_via_by_id real_path)])
                      | None \<Rightarrow>
                          (Inr None,
                           Log INFO Searching_for_device # evs1 @ list_common_devices f)))
              else (Inr None, Log INFO Searching_for_device # evs1 @ list_common_devices f)))"

section \<open>The liveness probe and the choice of the read loop\<close>

text \<open>
  What the probe meets: \<open>open(device_path, 'rb')\<close> raises or not, \<open>select\<close> with the
  timeout raises or tells whether the device is ready, \<open>device.read(24)\<close> raises or
  gives bytes.
\<close>

record probe_io =
  open_rb :: "string \<Rightarrow> exn option"
  select_ready :: "nat \<Rightarrow> exn + bool"
  read_bytes :: "nat \<Rightarrow> exn + byte list"

text \<open>What a Python function returns here: \<open>True\<close>, \<open>False\<close>, or \<open>None\<close> at its end.\<close>

datatype pyval = PyTrue | PyFalse | PyNone

fun truthy :: "pyval \<Rightarrow> bool" where
  "truthy PyTrue = True"
| "truthy PyFalse = False"
| "truthy PyNone = False"

text \<open>The two \<open>except\<close> clauses of \<open>test_device_input\<close>.\<close>

definition probe_except :: "string \<Rightarrow> exn \<Rightarrow> pyval \<times> event list" where
  "probe_except dev_path e =
     (if e = PermissionError then
        (PyFalse, [Log ERROR (Permission_denied dev_path), Log INFO Try_usermod,
                   Log INFO Then_relogin])
      else (PyFalse, [Log ERROR (Probe_error dev_path e)]))"

definition test_device_input :: "probe_io \<Rightarrow> string \<Rightarrow> nat \<Rightarrow> pyval \<times> event list" where
  "test_device_input io dev_path timeout =
     (let (v, evs) =
        (case open_rb io dev_path of
           Some e \<Rightarrow> probe_except dev_path e
         | None \<Rightarrow>
             (let (v', evs') =
                (case select_ready io timeout of
                   Inl e \<Rightarrow> probe_except dev_path e
                 | Inr ready \<Rightarrow>
                     if ready then
                       (case read_bytes io 24 of
                          Inl e \<Rightarrow> probe_except dev_path e
                        | Inr data \<Rightarrow>
                            if data \<noteq> [] then (PyTrue, [Log INFO Device_producing_input])
                            else (PyNone, []))
                     else (PyFalse, [Log INFO No_input_within_timeout]))
              in (v', Log INFO Device_opened # evs')))
      in (v, Log INFO (Testing_device dev_path) # evs))"

text \<open>
  The read loop \<open>start_listening\<close> enters: \<open>read_rfid_from_device\<close> on a path, or
  \<open>read_rfid_from_stdin\<close>.
\<close>

datatype strategy = DeviceRead string | StdinRead

text \<open>
  \<open>start_listening\<close> up to the call of the read loop: the loop chosen, or the exception
  of the locator, which is not caught here either.
\<close>

definition start_listening ::
  "fs \<Rightarrow> probe_io \<Rightarrow> enh_listener \<Rightarrow> (exn + strategy) \<times> enh_listener \<times> event list" where
  "start_listening f io st =
     (let st1 = st\<lparr>running := True\<rparr>;
          (found, evs1) = find_rfid_device f
      in case found of
           Inl e \<Rightarrow> (Inl e, st1, Log INFO Listener_starting # evs1)
         | Inr dp \<Rightarrow>
             (let st2 = st1\<lparr>device_path := dp\<rparr>
              in if dp \<noteq> None \<and> the dp \<noteq> [] then
                   (let (v, evs2) = test_device_input io (the dp) 5
                    in if truthy v then
                         (Inr (DeviceRead (the dp)), st2,
                          Log INFO Listener_starting # evs1 @ evs2 @
                          [Log INFO (Using_device_input (the dp))])
                       else
                         (Inr StdinRead, st2,
                          Log INFO Listener_starting # evs1 @ evs2 @
                          [Log WARNING Device_test_failed]))
                 else
                   (Inr StdinRead, st2,
                    Log INFO Listener_starting # evs1 @
                    [Log INFO No_device_detected, Log INFO Make_sure_focus])))"

text \<open>Whether the probe was called: it logs the path it tests before anything else.\<close>

definition probed :: "event list \<Rightarrow> bool" where
  "probed evs =
     list_ex (\<lambda>e. case e of
                   Log l m \<Rightarrow> (case m of Testing_device p \<Rightarrow> True | _ \<Rightarrow> False)
                 | _ \<Rightarrow> False) evs"




section \<open>Examples\<close>

text \<open>A consumer that answers, one that cannot be reached, one that answers 500.\<close>

definition ok_reply :: response where
  "ok_reply = \<lparr>status_code = 200, resp_text = [],
                resp_json = Inr \<lparr>mapped = True, music_dir = Some ''/music/album'',
                                playback_triggered = True\<rparr>\<rparr>"

definition world_at :: "real \<Rightarrow> world" where
  "world_at t = \<lparr>clock = t, http_post = (\<lambda>r. Inr ok_reply)\<rparr>"

definition world_down :: "real \<Rightarrow> world" where
  "world_down t = \<lparr>clock = t, http_post = (\<lambda>r. Inl RequestException)\<rparr>"

definition world_500 :: "real \<Rightarrow> world" where
  "world_500 t = \<lparr>clock = t, http_post = (\<lambda>r. Inr (ok_reply\<lparr>status_code := 500\<rparr>))\<rparr>"

text \<open>A running listener that has accepted nothing yet, and the basic listener as \<open>__init__\<close> leaves it.\<close>

definition listener0 :: listener where
  "listener0 = \<lparr>flask_url = ''http://localhost:5000/scan'', running = True, last_scan_time = 0\<rparr>"

definition machine0 :: machine where
  "machine0 = RFIDListener_init ''localhost'' 5000"

text \<open>The record of a key press with the given code and zero time stamps.\<close>

definition key_press :: "nat \<Rightarrow> byte list" where
  "key_press k =
     [0, 0, 0, 0, 0, 0, 0, 0, 0, 0, 0, 0, 0, 0, 0, 0,
      1, 0, of_nat (k mod 256), of_nat (k div 256), 1, 0, 0, 0]"

definition key_release :: "nat \<Rightarrow> byte list" where
  "key_release k =
     [0, 0, 0, 0, 0, 0, 0, 0, 0, 0, 0, 0, 0, 0, 0, 0,
      1, 0, of_nat (k mod 256), of_nat (k div 256), 0, 0, 0, 0]"

text \<open>An enhanced listener that is running.\<close>

definition enh0 :: enh_listener where
  "enh0 = (EnhancedRFIDListener_init ''localhost'' 5000)\<lparr>running := True\<rparr>"

text \<open>
  Three courses of events. In each, six digits arrive at time 100 and the timer of the
  last one fires at 102, its callback blocking in the request. In the first a newline
  is read before the request returns. In the second six letters are read before it
  returns, and a newline and the timer of the last letter come after. In the third one
  character is read before it returns and one after.
\<close>

definition at_time :: "real \<Rightarrow> stimulus list \<Rightarrow> (world \<times> stimulus) list" where
  "at_time t xs = map (\<lambda>x. (world_at t, x)) xs"

definition scan_twice_schedule :: "(world \<times> stimulus) list" where
  "scan_twice_schedule =
     at_time 100 (map Char_read ''123456'') @
     [(world_at 102, Timer_expires 5), (world_at 103.5, Char_read (CHR 0x0A)),
      (world_at 104, Post_returns 5)]"

definition lost_chars_prefix :: "(world \<times> stimulus) list" where
  "lost_chars_prefix =
     at_time 100 (map Char_read ''123456'') @ [(world_at 102, Timer_expires 5)] @
     at_time 102.5 (map Char_read ''abcdef'')"

definition lost_chars_schedule :: "(world \<times> stimulus) list" where
  "lost_chars_schedule =
     lost_chars_prefix @
     [(world_at 103, Post_returns 5), (world_at 104.5, Timer_expires 11),
      (world_at 105, Char_read (CHR 0x0A))]"

definition two_timers_schedule :: "(world \<times> stimulus) list" where
  "two_timers_schedule =
     at_time 100 (map Char_read ''123456'') @
     [(world_at 102, Timer_expires 5), (world_at 102.1, Char_read CHR ''a''),
      (world_at 102.15, Post_returns 5), (world_at 102.2, Char_read CHR ''b'')]"

text \<open>Characters that arrive together at one time.\<close>

definition burst :: "real \<Rightarrow> string \<Rightarrow> (world \<times> char) list" where
  "burst t cs = map (\<lambda>c. (world_at t, c)) cs"

text \<open>A machine with a reader in its registry and one without; neither has a by-id directory.\<close>

definition fs_reader :: fs where
  "fs_reader =
     \<lparr>proc_devices = Inr (''N: Name=RFID'' @ [CHR 0x0A] @ ''H: Handlers=kbd event3''),
      path_exists = (\<lambda>p. p = ''/dev/input/event3''),
      listdir = (\<lambda>d. Inr []),
      realpath = (\<lambda>p. p)\<rparr>"


text \<open>A device that stays silent and one that may not be opened.\<close>

definition io_silent :: probe_io where
  "io_silent = \<lparr>open_rb = (\<lambda>p. None), select_ready = (\<lambda>t. Inr False), read_bytes = (\<lambda>n. Inr [])\<rparr>"

definition io_denied :: probe_io where
  "io_denied = \<lparr>open_rb = (\<lambda>p. Some PermissionError), select_ready = (\<lambda>t. Inr False),
                 read_bytes = (\<lambda>n. Inr [])\<rparr>"

section \<open>Basic facts\<close>

lemma enh_is_valid_rfid_eq: "enh_is_valid_rfid s = is_valid_rfid s"
  by (simp add: enh_is_valid_rfid_def is_valid_rfid_def)

lemma posts_append [simp]: "posts (xs @ ys) = posts xs @ posts ys"
  by (induction xs rule: posts.induct) simp_all

lemma candidates_append [simp]: "candidates (xs @ ys) = candidates xs @ candidates ys"
  by (induction xs rule: candidates.induct) simp_all

lemma posts_interpret_response [simp]: "posts (interpret_response rfid out) = []"
  by (simp add: interpret_response_def split: sum.splits)

lemma posts_enh_interpret_response [simp]: "posts (enh_interpret_response rfid out) = []"
  by (simp add: enh_interpret_response_def split: sum.splits)

lemma candidates_interpret_response [simp]: "candidates (interpret_response rfid out) = []"
  by (simp add: interpret_response_def split: sum.splits)

lemma candidates_enh_interpret_response [simp]: "candidates (enh_interpret_response rfid out) = []"
  by (simp add: enh_interpret_response_def split: sum.splits)

lemma is_valid_rfid_iff:
  "is_valid_rfid s \<longleftrightarrow>
     6 \<le> length s \<and> length s \<le> 20 \<and> remove_spaces s \<noteq> [] \<and>
     list_all py_isalnum_char (remove_spaces s)"
  by (auto simp: is_valid_rfid_def MIN_RFID_LENGTH_def MAX_RFID_LENGTH_def py_isalnum_def)

lemma process_scan_posts:
  "posts (snd (process_scan w raw st)) =
     (if is_valid_rfid (py_strip raw) \<and> 1 \<le> clock w - last_scan_time st
      then [mk_request (flask_url st) (py_strip raw)] else [])"
  by (simp add: process_scan_def Let_def not_less)

lemma process_scan_state:
  "fst (process_scan w raw st) =
     (if is_valid_rfid (py_strip raw) \<and> 1 \<le> clock w - last_scan_time st
      then st\<lparr>last_scan_time := clock w\<rparr> else st)"
  by (simp add: process_scan_def Let_def not_less)

lemma process_scan_candidates: "candidates (snd (process_scan w raw st)) = [raw]"
  by (simp add: process_scan_def Let_def)

lemma enh_process_scan_posts:
  "posts (snd (enh_process_scan w raw st)) = posts (snd (process_scan w raw st))"
  by (simp add: process_scan_def enh_process_scan_def Let_def enh_is_valid_rfid_eq)

lemma enh_process_scan_state:
  "fst (enh_process_scan w raw st) = fst (process_scan w raw st)"
  by (simp add: process_scan_def enh_process_scan_def Let_def enh_is_valid_rfid_eq)

lemma enh_process_scan_candidates: "candidates (snd (enh_process_scan w raw st)) = [raw]"
  by (simp add: enh_process_scan_def Let_def)

lemma last_dropWhile_ne: "dropWhile P xs \<noteq> [] \<Longrightarrow> last (dropWhile P xs) = last xs"
  by (induction xs) (auto split: if_splits)

lemma strip_last: "py_strip s \<noteq> [] \<Longrightarrow> \<not> py_isspace (last (py_strip s))"
  unfolding py_strip_def by (simp add: last_rev hd_dropWhile)

lemma strip_hd: "py_strip s \<noteq> [] \<Longrightarrow> \<not> py_isspace (hd (py_strip s))"
proof -
  assume ne: "py_strip s \<noteq> []"
  let ?ys = "dropWhile py_isspace s"
  let ?zs = "dropWhile py_isspace (rev ?ys)"
  from ne have zs: "?zs \<noteq> []" by (simp add: py_strip_def)
  have "\<And>ys. dropWhile py_isspace (rev ys) \<noteq> [] \<Longrightarrow> ys \<noteq> []" by auto
  from this [OF zs] have ys: "?ys \<noteq> []" .
  have "hd (py_strip s) = last ?zs" using zs by (simp add: py_strip_def hd_rev)
  also have "\<dots> = last (rev ?ys)" using zs by (rule last_dropWhile_ne)
  also have "\<dots> = hd ?ys" using ys by (simp add: last_rev)
  finally show ?thesis using ys by (simp add: hd_dropWhile)
qed

lemma is_valid_rfid_nonempty: "is_valid_rfid s \<Longrightarrow> s \<noteq> []"
  by (auto simp: is_valid_rfid_def)


lemma acceptance_chain:
  assumes st: "\<And>w c s. fst (ps w c s) = fst (process_scan w c s)"
    and po: "\<And>w c s. posts (snd (ps w c s)) = posts (snd (process_scan w c s))"
  shows "successively (\<lambda>a b. 1 \<le> b - a) (last_scan_time s # acceptance_times ps s xs)"
proof (induction xs arbitrary: s)
  case Nil
  show ?case by simp
next
  case (Cons x xs)
  obtain w c where x: "x = (w, c)" by (cases x)
  obtain s' evs where r: "ps w c s = (s', evs)" by (cases "ps w c s")
  have s': "s' = fst (process_scan w c s)" using st [of w c s] r by simp
  have evs: "posts evs = posts (snd (process_scan w c s))" using po [of w c s] r by simp
  show ?case
  proof (cases "is_valid_rfid (py_strip c) \<and> 1 \<le> clock w - last_scan_time s")
    case True
    then have "last_scan_time s' = clock w" and "posts evs \<noteq> []"
      by (simp_all add: s' evs process_scan_state process_scan_posts)
    then show ?thesis using Cons.IH [of s'] True by (simp add: x r)
  next
    case False
    then have "s' = s" and "posts evs = []"
      by (simp_all add: s' evs process_scan_state process_scan_posts)
    then show ?thesis using Cons.IH [of s] by (simp add: x r)
  qed
qed

section \<open>The duplicate window\<close>

text \<open>
  C2: for scans processed in order, each acceptance is at least 1.0 second after the
  previous one (and after the initial \<open>last_scan_time\<close>), whatever the values. A valid
  scan within the window leaves the listener unchanged; a valid scan outside it sets
  \<open>last_scan_time\<close> to the current time, whatever the request then does, and the request
  is sent from the updated listener.
\<close>
theorem dedup_window:
  "successively (\<lambda>a b. 1 \<le> b - a) (last_scan_time st0 # acceptance_times process_scan st0 scans) \<and>
   successively (\<lambda>a b. 1 \<le> b - a) (last_scan_time st0 # acceptance_times enh_process_scan st0 scans) \<and>
   (is_valid_rfid (py_strip c) \<and> clock w - last_scan_time st < 1 \<longrightarrow>
      process_scan w c st = (st, [Candidate c, Log DEBUG (Ignoring_duplicate (py_strip c))]) \<and>
      enh_process_scan w c st = (st, [Candidate c, Log DEBUG (Ignoring_duplicate (py_strip c))])) \<and>
   (is_valid_rfid (py_strip c) \<and> \<not> clock w - last_scan_time st < 1 \<longrightarrow>
      fst (process_scan w c st) = st\<lparr>last_scan_time := clock w\<rparr> \<and>
      fst (enh_process_scan w c st) = st\<lparr>last_scan_time := clock w\<rparr> \<and>
      posts (snd (process_scan w c st)) = [mk_request (flask_url st) (py_strip c)] \<and>
      posts (snd (enh_process_scan w c st)) = [mk_request (flask_url st) (py_strip c)])"
proof -
  have a: "successively (\<lambda>a b. 1 \<le> b - a) (last_scan_time st0 # acceptance_times process_scan st0 scans)"
    by (rule acceptance_chain) simp_all
  have b: "successively (\<lambda>a b. 1 \<le> b - a) (last_scan_time st0 # acceptance_times enh_process_scan st0 scans)"
    by (rule acceptance_chain) (simp_all add: enh_process_scan_state enh_process_scan_posts)
  have c: "process_scan w c st = (st, [Candidate c, Log DEBUG (Ignoring_duplicate (py_strip c))]) \<and>
      enh_process_scan w c st = (st, [Candidate c, Log DEBUG (Ignoring_duplicate (py_strip c))])"
    if "is_valid_rfid (py_strip c)" "clock w - last_scan_time st < 1"
    using that by (simp add: process_scan_def enh_process_scan_def enh_is_valid_rfid_eq)
  have d: "fst (process_scan w c st) = st\<lparr>last_scan_time := clock w\<rparr> \<and>
      fst (enh_process_scan w c st) = st\<lparr>last_scan_time := clock w\<rparr> \<and>
      posts (snd (process_scan w c st)) = [mk_request (flask_url st) (py_strip c)] \<and>
      posts (snd (enh_process_scan w c st)) = [mk_request (flask_url st) (py_strip c)]"
    if "is_valid_rfid (py_strip c)" "\<not> clock w - last_scan_time st < 1"
    using that by (simp add: process_scan_state process_scan_posts enh_process_scan_state
        enh_process_scan_posts)
  from a b c d show ?thesis by blast
qed

lemma strip_123456: "py_strip ''123456'' = ''123456''"
  by (simp add: py_strip_def py_isspace_def)

lemma strip_abcdef: "py_strip ''abcdef'' = ''abcdef''"
  by (simp add: py_strip_def py_isspace_def)

lemma valid_123456: "is_valid_rfid ''123456''"
  by (simp add: is_valid_rfid_iff remove_spaces_def py_isalnum_char_def)

lemma valid_abcdef: "is_valid_rfid ''abcdef''"
  by (simp add: is_valid_rfid_iff remove_spaces_def py_isalnum_char_def)

theorem dedup_window_witness:
  "acceptance_times process_scan listener0
     [(world_at 100, ''123456''), (world_at 100.5, ''abcdef''), (world_at 101, ''abcdef'')]
     = [100, 101] \<and>
   is_valid_rfid (py_strip ''abcdef'') \<and> clock (world_at 100.5) - last_scan_time (listener0\<lparr>last_scan_time := 100\<rparr>) < 1 \<and>
   process_scan (world_at 100.5) ''abcdef'' (listener0\<lparr>last_scan_time := 100\<rparr>) =
     (listener0\<lparr>last_scan_time := 100\<rparr>, [Candidate ''abcdef'', Log DEBUG (Ignoring_duplicate ''abcdef'')]) \<and>
   \<not> clock (world_down 101) - last_scan_time (listener0\<lparr>last_scan_time := 100\<rparr>) < 1 \<and>
   last_scan_time (fst (process_scan (world_down 101) ''abcdef'' (listener0\<lparr>last_scan_time := 100\<rparr>))) = 101"
proof -
  let ?s = "listener0\<lparr>last_scan_time := 100\<rparr>"
  have v: "is_valid_rfid (py_strip ''abcdef'')" by (simp add: strip_abcdef valid_abcdef)
  have t1: "clock (world_at 100.5) - last_scan_time ?s < 1" by (simp add: world_at_def)
  have t2: "\<not> clock (world_down 101) - last_scan_time ?s < 1" by (simp add: world_down_def)
  have acc: "acceptance_times process_scan listener0
     [(world_at 100, ''123456''), (world_at 100.5, ''abcdef''), (world_at 101, ''abcdef'')]
     = [100, 101]"
    by (simp add: process_scan_def strip_123456 strip_abcdef valid_123456 valid_abcdef
        world_at_def listener0_def Let_def)
  have d: "process_scan (world_at 100.5) ''abcdef'' ?s =
     (?s, [Candidate ''abcdef'', Log DEBUG (Ignoring_duplicate ''abcdef'')])"
    using dedup_window [of listener0 "[]" "''abcdef''" "world_at 100.5" ?s] v t1
    by (simp add: strip_abcdef)
  have u: "last_scan_time (fst (process_scan (world_down 101) ''abcdef'' ?s)) = 101"
    using dedup_window [of listener0 "[]" "''abcdef''" "world_down 101" ?s] v t2
    by (simp add: world_down_def)
  from v t1 t2 acc d u show ?thesis by blast
qed

section \<open>Delivery\<close>

text \<open>
  C8: an accepted identifier is posted exactly once, to the listener's URL, with the
  identifier as the \<open>rfid\<close> of the JSON body and a timeout of 5 seconds. When the
  request raises or the status is not 200, one error is logged, nothing else is sent
  and the listener keeps nothing of the identifier.
\<close>
theorem delivery_once_no_retry:
  "is_valid_rfid (py_strip raw) \<and> 1 \<le> clock w - last_scan_time st \<longrightarrow>
     (let req = \<lparr>req_url = flask_url st, req_json_rfid = py_strip raw, req_timeout = 5,
                 req_content_type = ''application/json''\<rparr>
      in posts (snd (process_scan w raw st)) = [req] \<and>
         posts (snd (enh_process_scan w raw st)) = [req] \<and>
         ((case http_post w req of Inl e \<Rightarrow> True | Inr r \<Rightarrow> status_code r \<noteq> 200) \<longrightarrow>
            (\<exists>m. process_scan w raw st =
               (st\<lparr>last_scan_time := clock w\<rparr>,
                [Candidate raw, Log INFO (Processing_scan (py_strip raw)), Post req, Log ERROR m])) \<and>
            (\<exists>m. enh_process_scan w raw st =
               (st\<lparr>last_scan_time := clock w\<rparr>,
                [Candidate raw, Log INFO (Processing_scan (py_strip raw)), Post req, Log ERROR m]))))"
  by (auto simp: process_scan_def enh_process_scan_def enh_is_valid_rfid_eq Let_def mk_request_def
      interpret_response_def enh_interpret_response_def not_less split: sum.splits)

theorem delivery_once_no_retry_witness:
  "is_valid_rfid (py_strip ''123456'') \<and> 1 \<le> clock (world_500 100) - last_scan_time listener0 \<and>
   posts (snd (process_scan (world_500 100) ''123456'' listener0)) =
     [\<lparr>req_url = ''http://localhost:5000/scan'', req_json_rfid = ''123456'', req_timeout = 5,
       req_content_type = ''application/json''\<rparr>] \<and>
   (\<exists>m. snd (process_scan (world_500 100) ''123456'' listener0) =
     [Candidate ''123456'', Log INFO (Processing_scan ''123456''),
      Post \<lparr>req_url = ''http://localhost:5000/scan'', req_json_rfid = ''123456'', req_timeout = 5,
            req_content_type = ''application/json''\<rparr>,
      Log ERROR m])"
proof -
  have v: "is_valid_rfid (py_strip ''123456'')" by (simp add: strip_123456 valid_123456)
  have t: "1 \<le> clock (world_500 100) - last_scan_time listener0"
    by (simp add: world_500_def listener0_def)
  have f: "(case http_post (world_500 100) r of Inl e \<Rightarrow> True | Inr r \<Rightarrow> status_code r \<noteq> 200)" for r
    by (simp add: world_500_def ok_reply_def)
  have "flask_url listener0 = ''http://localhost:5000/scan''" by (simp add: listener0_def)
  then show ?thesis
    using delivery_once_no_retry [of "''123456''" "world_500 100" listener0] v t f
    by (auto simp: strip_123456 Let_def)
qed

section \<open>The validator\<close>

text \<open>
  C1, as the specification states it, fails: a string of six spaces has a length in
  [6, 20] and no character left once the spaces are removed, so the stated rule holds
  of it, and both validators reject it, \<open>isalnum\<close> of the empty string being false.
\<close>
theorem six_spaces_counterexample:
  "spec_shape_rule ''      '' \<and> \<not> is_valid_rfid ''      '' \<and> \<not> enh_is_valid_rfid ''      '' \<and>
   posts (snd (process_scan (world_at 100) ''      '' listener0)) = [] \<and>
   posts (snd (enh_process_scan (world_at 100) ''      '' listener0)) = []"
proof -
  have s: "py_strip ''      '' = []" by (simp add: py_strip_def py_isspace_def)
  have v: "\<not> is_valid_rfid []" by (simp add: is_valid_rfid_def)
  show ?thesis
    by (simp add: spec_shape_rule_def is_valid_rfid_def enh_is_valid_rfid_def remove_spaces_def
        py_isalnum_def MIN_RFID_LENGTH_def MAX_RFID_LENGTH_def process_scan_def
        enh_process_scan_def s)
qed

text \<open>
  C1, amended: a validator accepts a string exactly when its length is in [6, 20] and
  what remains after removing the spaces is not empty and alphanumeric throughout.
  A scan whose stripped form the validator rejects is not sent and changes nothing.
\<close>

theorem validator_shape_rule:
  "(is_valid_rfid s \<longleftrightarrow>
      6 \<le> length s \<and> length s \<le> 20 \<and> remove_spaces s \<noteq> [] \<and>
      list_all py_isalnum_char (remove_spaces s)) \<and>
   enh_is_valid_rfid s = is_valid_rfid s \<and>
   (\<not> is_valid_rfid (py_strip c) \<longrightarrow>
      posts (snd (process_scan w c st)) = [] \<and> fst (process_scan w c st) = st \<and>
      posts (snd (enh_process_scan w c st)) = [] \<and> fst (enh_process_scan w c st) = st)"
  by (simp add: is_valid_rfid_iff enh_is_valid_rfid_eq process_scan_posts process_scan_state
      enh_process_scan_posts enh_process_scan_state)

theorem validator_shape_rule_witness:
  "\<not> is_valid_rfid (py_strip ''ab'') \<and>
   posts (snd (process_scan (world_at 100) ''ab'' listener0)) = [] \<and>
   posts (snd (enh_process_scan (world_at 100) ''ab'' listener0)) = [] \<and>
   is_valid_rfid ''A1B2C3''"
proof -
  have s: "py_strip ''ab'' = ''ab''" by (simp add: py_strip_def py_isspace_def)
  have h: "\<not> is_valid_rfid (py_strip ''ab'')"
    by (simp add: s is_valid_rfid_def MIN_RFID_LENGTH_def)
  have v: "is_valid_rfid ''A1B2C3''"
    using validator_shape_rule [of "''A1B2C3''" "''ab''" "world_at 100" listener0]
    by (simp add: remove_spaces_def py_isalnum_char_def)
  show ?thesis
    using h v validator_shape_rule [of "''A1B2C3''" "''ab''" "world_at 100" listener0]
    by blast
qed

section \<open>The scan assembler\<close>

lemma process_scan_fields [simp]:
  "scan_buffer (fst (process_scan w raw st)) = scan_buffer st"
  "scan_timer (fst (process_scan w raw st)) = scan_timer st"
  "active_timers (fst (process_scan w raw st)) = active_timers st"
  "fresh_timer (fst (process_scan w raw st)) = fresh_timer st"
  by (simp_all add: process_scan_state)

lemma handle_char:
  "\<not> terminator c \<Longrightarrow> handle_input_char w c st =
     (timer_start SCAN_TIMEOUT (clock w)
        (case scan_timer st of Some h \<Rightarrow> timer_cancel h (st\<lparr>scan_buffer := scan_buffer st @ [c]\<rparr>)
         | None \<Rightarrow> st\<lparr>scan_buffer := scan_buffer st @ [c]\<rparr>), [])"
  by (simp add: terminator_def handle_input_char_def Let_def)

lemma str_nat_5000: "str_nat 5000 = ''5000''"
  by (simp add: str_nat.simps)

lemma process_scan_split:
  "process_scan w raw st =
     (case scan_until_post w raw st of
        (st', evs, None) \<Rightarrow> (st', evs)
      | (st', evs, Some payload) \<Rightarrow> (st', evs @ scan_after_post w payload))"
  by (simp add: process_scan_def scan_until_post_def scan_after_post_def Let_def mk_request_def)

lemma filter_absent: "map_of xs h = None \<Longrightarrow> filter (\<lambda>(i, p). i \<noteq> h) xs = xs"
  by (induction xs) (auto split: if_splits)

lemma callback_whole:
  assumes "list_ex (\<lambda>(i, d). i = h \<and> d \<le> clock w) (active_timers st)"
    and "map_of (in_flight st) h = None"
  shows "(let (s1, evs1) = callback_begins w h st; (s2, evs2) = callback_ends w h s1
          in (s2, evs1 @ evs2)) = flush_scan_buffer w (timer_cancel h st)"
proof -
  have f: "filter (\<lambda>(i, p). i \<noteq> h) (in_flight st) = in_flight st"
    using assms(2) by (rule filter_absent)
  show ?thesis
    using assms
    by (simp add: callback_begins_def callback_ends_def flush_scan_buffer_def process_scan_def
        scan_until_post_def scan_after_post_def timer_cancel_def Let_def f mk_request_def
        map_add_def)
qed

lemma run_fst: "fst (run st ((w, x) # xs)) = fst (run (fst (react w x st)) xs)"
  by (simp add: split_beta)

lemma run_candidates:
  "candidates (snd (run st ((w, x) # xs))) =
   candidates (snd (react w x st)) @ candidates (snd (run (fst (react w x st)) xs))"
  by (simp add: split_beta)

lemma run_posts:
  "posts (snd (run st ((w, x) # xs))) =
   posts (snd (react w x st)) @ posts (snd (run (fst (react w x st)) xs))"
  by (simp add: split_beta)

lemmas run_eval =
  run_fst run_candidates run_posts run.simps(1) at_time_def machine0_def
  RFIDListener_init_def handle_input_char_def timer_start_def timer_cancel_def
  callback_begins_def callback_ends_def scan_until_post_def scan_after_post_def
  process_scan_posts process_scan_state process_scan_candidates
  strip_123456 valid_123456 SCAN_TIMEOUT_def Let_def split_beta world_at_def mk_request_def

lemma strip_b: "py_strip ''b'' = ''b''"
  by (simp add: py_strip_def py_isspace_def)

lemma invalid_b: "\<not> is_valid_rfid ''b''"
  by (simp add: is_valid_rfid_iff)

lemma scan_twice:
  "candidates (snd (run machine0 scan_twice_schedule)) = [''123456'', ''123456'']"
  "deliveries (snd (run machine0 scan_twice_schedule)) = [''123456'', ''123456'']"
  by (simp_all del: run.simps add: scan_twice_schedule_def deliveries_def run_eval)

lemma lost_chars:
  "scan_buffer (fst (run machine0 lost_chars_prefix)) = ''123456abcdef''"
  "candidates (snd (run machine0 lost_chars_schedule)) = [''123456'']"
  "scan_buffer (fst (run machine0 lost_chars_schedule)) = []"
  "active_timers (fst (run machine0 lost_chars_schedule)) = []"
  by (simp_all del: run.simps add: lost_chars_schedule_def lost_chars_prefix_def run_eval)

lemma two_timers:
  "active_timers (fst (run machine0 two_timers_schedule)) = [(6, 104.1), (7, 104.2)]"
  "scan_timer (fst (run machine0 two_timers_schedule)) = Some 7"
  "scan_buffer (fst (run machine0 two_timers_schedule)) = ''b''"
  by (simp_all del: run.simps add: two_timers_schedule_def run_eval)

text \<open>
  C3 fails on the code. The callback of the timer runs on a thread of its own and
  blocks in its request before it resets the buffer, and the source takes no lock. A
  newline read meanwhile passes the same buffer to \<open>process_scan\<close> a second time, and
  one scan is sent twice. Characters read meanwhile are appended to the buffer and
  wiped when the callback resumes: they are never passed on, by a later newline or
  timer either.
\<close>

theorem callback_overlaps_reader:
  "candidates (snd (run machine0 scan_twice_schedule)) = [''123456'', ''123456''] \<and>
   deliveries (snd (run machine0 scan_twice_schedule)) = [''123456'', ''123456''] \<and>
   scan_buffer (fst (run machine0 lost_chars_prefix)) = ''123456abcdef'' \<and>
   candidates (snd (run machine0 lost_chars_schedule)) = [''123456''] \<and>
   scan_buffer (fst (run machine0 lost_chars_schedule)) = [] \<and>
   active_timers (fst (run machine0 lost_chars_schedule)) = []"
  using scan_twice lost_chars by simp

text \<open>
  C4 fails on the code, by the same missing lock. A character read while the callback
  is blocked starts a timer, and the callback, when it resumes, sets \<open>scan_timer\<close> to
  \<open>None\<close>; the next character, read at 102.2, finds no timer to cancel and starts a
  second one. Two timers are active, and the older one flushes the buffer at 104.1,
  before two seconds have passed since that character.
\<close>

theorem two_timers_outstanding:
  "active_timers (fst (run machine0 two_timers_schedule)) = [(6, 104.1), (7, 104.2)] \<and>
   \<not> single_pending (fst (run machine0 two_timers_schedule)) \<and>
   scan_buffer (fst (run machine0 two_timers_schedule)) = ''b'' \<and>
   candidates (snd (callback_begins (world_at 104.1) 6 (fst (run machine0 two_timers_schedule))))
     = [''b''] \<and>
   clock (world_at 104.1) < clock (world_at 102.2) + SCAN_TIMEOUT"
proof -
  let ?st = "fst (run machine0 two_timers_schedule)"
  have sp: "\<not> single_pending ?st"
    by (simp add: single_pending_def two_timers)
  have c: "candidates (snd (callback_begins (world_at 104.1) 6 ?st)) = [''b'']"
    by (simp add: callback_begins_def timer_cancel_def scan_until_post_def two_timers strip_b
        invalid_b world_at_def Let_def)
  have t: "clock (world_at 104.1) < clock (world_at 102.2) + SCAN_TIMEOUT"
    by (simp add: world_at_def SCAN_TIMEOUT_def)
  from two_timers sp c t show ?thesis by simp
qed


section \<open>The loops of the enhanced listener\<close>

lemma keycode_cases:
  "keycode_to_char k = [] \<or> keycode_to_char k = [CHR 0x0A] \<or>
   (\<exists>c. keycode_to_char k = [c] \<and> c \<noteq> CHR 0x0A \<and> c \<noteq> CHR 0x0D)"
  by (auto simp: keycode_to_char_def keymap_def split: option.splits)

lemma keycode_empty_iff: "keycode_to_char k = [] \<longleftrightarrow> map_of keymap k = None"
  by (auto simp: keycode_to_char_def keymap_def split: option.splits)

lemma device_body_ignored:
  "length d \<noteq> event_size \<or> event_type (unpack d) \<noteq> 1 \<or> ev_value (unpack d) \<noteq> 1 \<or>
   map_of keymap (code (unpack d)) = None \<Longrightarrow> device_body w (Inr d) s = (s, [])"
  by (cases s) (auto simp: device_body_def Let_def keycode_empty_iff)

lemma device_loop_ignored:
  assumes "device_body w r s = (s, [])"
  shows "read_rfid_from_device s ((w, r) # rs) = read_rfid_from_device s rs"
proof (cases "running (fst s)")
  case True
  then show ?thesis using assms by (simp add: split_beta)
next
  case False
  then show ?thesis by (cases rs) auto
qed

lemma device_body_grows:
  assumes "length (snd (fst (device_body w r (st, buf)))) > length buf"
  shows "\<exists>d. r = Inr d \<and> length d = event_size \<and> event_type (unpack d) = 1 \<and>
     ev_value (unpack d) = 1 \<and> map_of keymap (code (unpack d)) \<noteq> None \<and>
     snd (fst (device_body w r (st, buf))) = buf @ keycode_to_char (code (unpack d))"
proof (cases r)
  case (Inl e)
  with assms show ?thesis by (simp add: device_body_def)
next
  case (Inr d)
  show ?thesis
  proof (cases "length d \<noteq> event_size \<or> event_type (unpack d) \<noteq> 1 \<or> ev_value (unpack d) \<noteq> 1 \<or>
      map_of keymap (code (unpack d)) = None")
    case True
    from device_body_ignored [OF this, of w "(st, buf)"] assms Inr show ?thesis by simp
  next
    case False
    with assms Inr show ?thesis
      by (auto simp: device_body_def Let_def split_beta split: if_splits)
  qed
qed

lemma device_stdin_step:
  assumes "running st"
  shows "read_rfid_from_device (st, buf) ((w, Inr d) # rs) =
     (case as_stdin d of
        None \<Rightarrow> read_rfid_from_device (st, buf) rs
      | Some c \<Rightarrow>
          if c = CHR 0x0A \<or> c = CHR 0x0D then
            (if py_strip buf \<noteq> [] then
               (let (st', evs1) = enh_process_scan w (py_strip buf) st;
                    (s2, evs2) = read_rfid_from_device (st', []) rs
                in (s2, evs1 @ evs2))
             else read_rfid_from_device (st, buf) rs)
          else read_rfid_from_device (st, buf @ [c]) rs)"
proof (cases "length d \<noteq> event_size \<or> event_type (unpack d) \<noteq> 1 \<or> ev_value (unpack d) \<noteq> 1 \<or>
      map_of keymap (code (unpack d)) = None")
  case True
  then have "as_stdin d = None"
    by (auto simp: as_stdin_def keycode_empty_iff [symmetric])
  then show ?thesis
    using device_loop_ignored [OF device_body_ignored [OF True, of w "(st, buf)"], of rs]
    by (simp del: read_rfid_from_device.simps)
next
  case False
  then have ok: "length d = event_size" "event_type (unpack d) = 1" "ev_value (unpack d) = 1" by auto
  from keycode_cases [of "code (unpack d)"] False
  consider "keycode_to_char (code (unpack d)) = [CHR 0x0A]"
    | c where "keycode_to_char (code (unpack d)) = [c]" "c \<noteq> CHR 0x0A" "c \<noteq> CHR 0x0D"
    by (auto simp: keycode_empty_iff)
  then show ?thesis
  proof cases
    case 1
    then show ?thesis using assms ok
      by (simp add: as_stdin_def device_body_def Let_def split_beta)
  next
    case 2
    then show ?thesis using assms ok
      by (simp add: as_stdin_def device_body_def Let_def split_beta)
  qed
qed

lemma device_as_stdin:
  "read_rfid_from_device s (map (\<lambda>(w, d). (w, Inr d)) ds) =
   read_rfid_from_stdin s (map (\<lambda>(w, d). (w, Inr (as_stdin d))) ds)"
proof (induction ds arbitrary: s)
  case Nil
  show ?case by simp
next
  case (Cons x ds)
  obtain w d where x: "x = (w, d)" by (cases x)
  obtain st buf where s: "s = (st, buf)" by (cases s)
  show ?case
  proof (cases "running st")
    case False
    then show ?thesis by (simp add: x s)
  next
    case True
    show ?thesis
      using True Cons.IH
      by (simp del: read_rfid_from_device.simps
          add: x device_stdin_step [OF True] s split_beta split: option.splits)
  qed
qed

text \<open>
  C7: one turn of the device loop lengthens the buffer only on a record of 24 bytes of
  type 1 and value 1 whose code is in the key table, and then by the character of that
  code. A record of another length, of another type or value, or with a code outside
  the table changes nothing, logs nothing and is not kept, and the loop goes on with
  the reads that follow as if it had not been there.
\<close>

theorem device_loop_filters_records:
  "(length buf < length (snd (fst (device_body w r (st, buf)))) \<longrightarrow>
      (\<exists>d. r = Inr d \<and> length d = event_size \<and> event_type (unpack d) = 1 \<and>
           ev_value (unpack d) = 1 \<and> map_of keymap (code (unpack d)) \<noteq> None \<and>
           snd (fst (device_body w r (st, buf))) = buf @ keycode_to_char (code (unpack d)))) \<and>
   (length d \<noteq> event_size \<or> event_type (unpack d) \<noteq> 1 \<or> ev_value (unpack d) \<noteq> 1 \<or>
    map_of keymap (code (unpack d)) = None \<longrightarrow>
      device_body w (Inr d) s = (s, []) \<and>
      read_rfid_from_device s ((w, Inr d) # rs) = read_rfid_from_device s rs) \<and>
   (length d = event_size \<and> event_type (unpack d) = 1 \<and> ev_value (unpack d) = 1 \<and>
    map_of keymap (code (unpack d)) = Some ch \<and> ch \<noteq> [CHR 0x0A] \<longrightarrow>
      device_body w (Inr d) (st, buf) = ((st, buf @ ch), [])) \<and>
   event_size = 24"
proof -
  have a: "device_body w (Inr d) s = (s, []) \<and>
      read_rfid_from_device s ((w, Inr d) # rs) = read_rfid_from_device s rs"
    if "length d \<noteq> event_size \<or> event_type (unpack d) \<noteq> 1 \<or> ev_value (unpack d) \<noteq> 1 \<or>
      map_of keymap (code (unpack d)) = None"
    using device_body_ignored [OF that, of w s] device_loop_ignored [of w "Inr d" s rs] by simp
  have b: "device_body w (Inr d) (st, buf) = ((st, buf @ ch), [])"
    if "length d = event_size \<and> event_type (unpack d) = 1 \<and> ev_value (unpack d) = 1 \<and>
      map_of keymap (code (unpack d)) = Some ch \<and> ch \<noteq> [CHR 0x0A]"
  proof -
    from that have "keycode_to_char (code (unpack d)) = ch" by (simp add: keycode_to_char_def)
    moreover from that have "ch \<noteq> []"
      using keycode_empty_iff [of "code (unpack d)"] calculation by auto
    ultimately show ?thesis using that by (simp add: device_body_def Let_def)
  qed
  from a b device_body_grows [of buf w r st] show ?thesis
    by (simp add: event_size_def)
qed

lemma unpack_press_2:
  "event_type (unpack (key_press 2)) = 1" "code (unpack (key_press 2)) = 2"
  "ev_value (unpack (key_press 2)) = 1" "length (key_press 2) = event_size"
  by (simp_all add: unpack_def key_press_def event_size_def)

lemma unpack_release_2:
  "ev_value (unpack (key_release 2)) \<noteq> 1"
  by (simp_all add: unpack_def key_release_def event_size_def)

lemma unpack_press_14:
  "code (unpack (key_press 14)) = 14"
  by (simp_all add: unpack_def key_press_def event_size_def)

theorem device_loop_filters_records_witness:
  "device_body (world_at 100) (Inr (key_press 2)) (enh0, ''12'') = ((enh0, ''121''), []) \<and>
   length (take 10 (key_press 2)) \<noteq> event_size \<and>
   device_body (world_at 100) (Inr (take 10 (key_press 2))) (enh0, ''12'') = ((enh0, ''12''), []) \<and>
   ev_value (unpack (key_release 2)) \<noteq> 1 \<and>
   device_body (world_at 100) (Inr (key_release 2)) (enh0, ''12'') = ((enh0, ''12''), []) \<and>
   map_of keymap (code (unpack (key_press 14))) = None \<and>
   read_rfid_from_device (enh0, ''12'') [(world_at 100, Inr (key_press 14)), (world_at 100, Inr (key_press 2))] =
     read_rfid_from_device (enh0, ''12'') [(world_at 100, Inr (key_press 2))]"
proof -
  have m2: "map_of keymap (code (unpack (key_press 2))) = Some ''1''"
    by (simp add: unpack_press_2 keymap_def)
  have m1: "map_of keymap (code (unpack (key_press 14))) = None"
    by (simp add: unpack_press_14 keymap_def)
  have p: "length (take 10 (key_press 2)) \<noteq> event_size"
    by (simp add: key_press_def event_size_def)
  note t = device_loop_filters_records [where w = "world_at 100" and st = enh0 and buf = "''12''"
      and s = "(enh0, ''12'')"]
  have 1: "device_body (world_at 100) (Inr (key_press 2)) (enh0, ''12'') = ((enh0, ''12'' @ ''1''), [])"
    using t [where d = "key_press 2" and ch = "''1''"] m2 unpack_press_2 by simp
  have 2: "device_body (world_at 100) (Inr (take 10 (key_press 2))) (enh0, ''12'') = ((enh0, ''12''), [])"
    using t [where d = "take 10 (key_press 2)"] p by blast
  have 3: "device_body (world_at 100) (Inr (key_release 2)) (enh0, ''12'') = ((enh0, ''12''), [])"
    using t [where d = "key_release 2"] unpack_release_2 by blast
  have 4: "read_rfid_from_device (enh0, ''12'') [(world_at 100, Inr (key_press 14)), (world_at 100, Inr (key_press 2))] =
     read_rfid_from_device (enh0, ''12'') [(world_at 100, Inr (key_press 2))]"
    using t [where d = "key_press 14" and rs = "[(world_at 100, Inr (key_press 2))]"] m1 by blast
  from 1 2 3 4 p m1 unpack_release_2 show ?thesis by simp
qed

lemma stdin_accumulates:
  "running st \<Longrightarrow> list_all (\<lambda>(w, c). \<not> terminator c) xs \<Longrightarrow>
   read_rfid_from_stdin (st, buf) (map (\<lambda>(w, c). (w, Inr (Some c))) xs) = ((st, buf @ map snd xs), [])"
  by (induction xs arbitrary: buf) (auto simp: terminator_def)

lemma stdin_cr_as_lf:
  "read_rfid_from_stdin s ((w, Inr (Some (CHR 0x0D))) # rs) =
   read_rfid_from_stdin s ((w, Inr (Some (CHR 0x0A))) # rs)"
  by (cases s) simp

lemma stdin_terminator:
  "running st \<Longrightarrow> read_rfid_from_stdin (st, buf) [(w, Inr (Some (CHR 0x0A)))] =
     (if py_strip buf \<noteq> []
      then ((fst (enh_process_scan w (py_strip buf) st), []), snd (enh_process_scan w (py_strip buf) st))
      else ((st, buf), []))"
  by (simp add: split_beta)

text \<open>
  C6, amended: the stdin loop of the enhanced listener behaves on characters as its
  device loop does on the records that decode to them; carriage return acts as
  newline; characters other than these two are appended to the buffer without any
  effect, whenever they arrive, and the buffer is passed on, stripped, only at a
  terminator.
\<close>

theorem stdin_fallback_terminator_only:
  "read_rfid_from_device s (map (\<lambda>(w, d). (w, Inr d)) ds) =
     read_rfid_from_stdin s (map (\<lambda>(w, d). (w, Inr (as_stdin d))) ds) \<and>
   read_rfid_from_stdin s ((w, Inr (Some (CHR 0x0D))) # rs) =
     read_rfid_from_stdin s ((w, Inr (Some (CHR 0x0A))) # rs) \<and>
   (running st \<and> list_all (\<lambda>(w, c). \<not> terminator c) xs \<longrightarrow>
      read_rfid_from_stdin (st, buf) (map (\<lambda>(w, c). (w, Inr (Some c))) xs) =
        ((st, buf @ map snd xs), [])) \<and>
   (running st \<longrightarrow>
      read_rfid_from_stdin (st, buf) [(w, Inr (Some (CHR 0x0A)))] =
        (if py_strip buf \<noteq> []
         then ((fst (enh_process_scan w (py_strip buf) st), []),
               snd (enh_process_scan w (py_strip buf) st))
         else ((st, buf), [])))"
  using device_as_stdin [of s ds] stdin_cr_as_lf [of s w rs] stdin_accumulates [of st xs buf]
    stdin_terminator [of st buf w]
  by blast

lemma strip_A1B2C3: "py_strip ''A1B2C3'' = ''A1B2C3''"
  by (simp add: py_strip_def py_isspace_def)

lemma valid_A1B2C3: "is_valid_rfid ''A1B2C3''"
  by (simp add: is_valid_rfid_iff remove_spaces_def py_isalnum_char_def)

theorem stdin_fallback_terminator_only_witness:
  "running enh0 \<and> list_all (\<lambda>(w, c). \<not> terminator c) (burst 100 ''A1B2C3'') \<and>
   read_rfid_from_stdin (enh0, []) (map (\<lambda>(w, c). (w, Inr (Some c))) (burst 100 ''A1B2C3'')) =
     ((enh0, ''A1B2C3''), []) \<and>
   deliveries (snd (read_rfid_from_stdin (enh0, ''A1B2C3'') [(world_at 100, Inr (Some (CHR 0x0A)))])) =
     [''A1B2C3'']"
proof -
  have r: "running enh0" by (simp add: enh0_def)
  have n: "list_all (\<lambda>(w, c). \<not> terminator c) (burst 100 ''A1B2C3'')"
    by (simp add: burst_def terminator_def)
  have m: "map snd (burst 100 ''A1B2C3'') = ''A1B2C3''" by (simp add: burst_def)
  have d: "deliveries (snd (enh_process_scan (world_at 100) ''A1B2C3'' enh0)) = [''A1B2C3'']"
    by (simp add: deliveries_def enh_process_scan_posts process_scan_posts strip_A1B2C3 valid_A1B2C3
        world_at_def enh0_def EnhancedRFIDListener_init_def mk_request_def)
  note t = stdin_fallback_terminator_only [where st = enh0 and w = "world_at 100"]
  have 1: "read_rfid_from_stdin (enh0, []) (map (\<lambda>(w, c). (w, Inr (Some c))) (burst 100 ''A1B2C3'')) =
     ((enh0, [] @ map snd (burst 100 ''A1B2C3'')), [])"
    using t [where xs = "burst 100 ''A1B2C3''" and buf = "[]"] r n by blast
  have 2: "read_rfid_from_stdin (enh0, ''A1B2C3'') [(world_at 100, Inr (Some (CHR 0x0A)))] =
     (if py_strip ''A1B2C3'' \<noteq> []
         then ((fst (enh_process_scan (world_at 100) (py_strip ''A1B2C3'') enh0), []),
               snd (enh_process_scan (world_at 100) (py_strip ''A1B2C3'') enh0))
         else ((enh0, ''A1B2C3''), []))"
    using t [where buf = "''A1B2C3''"] r by blast
  show ?thesis using r n 1 2 d by (simp add: m strip_A1B2C3)
qed

lemma run_timed_fst:
  "fst (run_timed st ((w, c) # xs)) =
   fst (run_timed (fst (handle_input_char w c (fst (expire_due w st)))) xs)"
  by (simp add: split_beta)

lemma run_timed_posts:
  "posts (snd (run_timed st ((w, c) # xs))) =
   posts (snd (expire_due w st)) @
   posts (snd (handle_input_char w c (fst (expire_due w st)))) @
   posts (snd (run_timed (fst (handle_input_char w c (fst (expire_due w st)))) xs))"
  by (simp add: split_beta)

lemma strip_123456abcdef: "py_strip ''123456abcdef'' = ''123456abcdef''"
  by (simp add: py_strip_def py_isspace_def)

lemma valid_123456abcdef: "is_valid_rfid ''123456abcdef''"
  by (simp add: is_valid_rfid_iff remove_spaces_def py_isalnum_char_def)

text \<open>
  C6, as the specification states it, fails: the stdin loop of the enhanced listener
  has no debounce timer. Six digits, a pause of ten seconds, six letters and a newline
  give two identifiers under the rules of the scan assembler, whose timer runs out
  during the pause, and one identifier of twelve characters in the stdin loop.
\<close>

theorem stdin_no_debounce_counterexample:
  "deliveries (snd (run_timed machine0
      (burst 100 ''123456'' @ burst 110 (''abcdef'' @ [CHR 0x0A])))) = [''123456'', ''abcdef''] \<and>
   deliveries (snd (read_rfid_from_stdin (enh0, [])
      (map (\<lambda>(w, c). (w, Inr (Some c)))
         (burst 100 ''123456'' @ burst 110 (''abcdef'' @ [CHR 0x0A]))))) = [''123456abcdef'']"
proof -
  have a: "deliveries (snd (read_rfid_from_stdin (enh0, [])
      (map (\<lambda>(w, c). (w, Inr (Some c)))
         (burst 100 ''123456'' @ burst 110 (''abcdef'' @ [CHR 0x0A]))))) = [''123456abcdef'']"
    by (simp add: burst_def enh0_def EnhancedRFIDListener_init_def strip_123456abcdef
        valid_123456abcdef split_beta enh_process_scan_posts process_scan_posts world_at_def
        deliveries_def mk_request_def)
  have b: "deliveries (snd (run_timed machine0
      (burst 100 ''123456'' @ burst 110 (''abcdef'' @ [CHR 0x0A])))) = [''123456'', ''abcdef'']"
    by (simp del: run_timed.simps add: run_timed_posts run_timed_fst run_timed.simps(1)
        burst_def machine0_def RFIDListener_init_def expire_due_def handle_input_char_def
        timer_start_def timer_cancel_def callback_begins_def callback_ends_def
        scan_until_post_def scan_after_post_def process_scan_posts process_scan_state
        strip_123456 strip_abcdef valid_123456 valid_abcdef SCAN_TIMEOUT_def
        Let_def split_beta world_at_def deliveries_def mk_request_def)
  from a b show ?thesis by simp
qed

section \<open>Choosing the read loop\<close>

lemma probed_append [simp]: "probed (xs @ ys) = (probed xs \<or> probed ys)"
  by (simp add: probed_def)

lemma probed_Nil [simp]: "probed [] = False"
  by (simp add: probed_def)

lemma probed_Cons_Log [simp]:
  "probed (Log l m # evs) = ((\<exists>p. m = Testing_device p) \<or> probed evs)"
  by (cases m) (simp_all add: probed_def)












lemmas re_eval = RFID_READER_PATTERNS_def eq_ic_def ascii_letter_def by_id_path_def

lemma silent_probe:
  "test_device_input io_silent p t =
     (PyFalse, [Log INFO (Testing_device p), Log INFO Device_opened, Log INFO No_input_within_timeout])"
  by (simp add: test_device_input_def io_silent_def)

lemma denied_probe:
  "test_device_input io_denied p t =
     (PyFalse, [Log INFO (Testing_device p), Log ERROR (Permission_denied p), Log INFO Try_usermod,
                Log INFO Then_relogin])"
  by (simp add: test_device_input_def io_denied_def probe_except_def)



lemma fs_reader_found: "fst (find_rfid_device fs_reader) = Inr (Some ''/dev/input/event3'')"
  by (simp add: find_rfid_device_def fs_reader_def re_eval event_at_def is_digit_def)


text \<open>
  C9, as the specification states it, fails: the probe returns \<open>False\<close> to its caller
  both when it may not open the device and when the device stays silent, so the caller
  cannot tell the two apart.
\<close>

theorem probe_failures_alike_counterexample:
  "fst (test_device_input io_denied ''/dev/input/event3'' 5) =
   fst (test_device_input io_silent ''/dev/input/event3'' 5)"
  by (simp add: silent_probe denied_probe)

text \<open>
  C9, amended: a silent device makes the probe return \<open>False\<close> after information
  messages only; a device it may not open makes it return \<open>False\<close> too, after an error
  message and the advice on group membership, both logged by the probe itself. On
  \<open>False\<close> from the probe the caller logs one and the same warning and enters the stdin
  loop.
\<close>

theorem probe_failures:
  "(open_rb io p = None \<and> select_ready io t = Inr False \<longrightarrow>
      test_device_input io p t =
        (PyFalse, [Log INFO (Testing_device p), Log INFO Device_opened,
                   Log INFO No_input_within_timeout])) \<and>
   (open_rb io p = Some PermissionError \<longrightarrow>
      test_device_input io p t =
        (PyFalse, [Log INFO (Testing_device p), Log ERROR (Permission_denied p),
                   Log INFO Try_usermod, Log INFO Then_relogin])) \<and>
   (fst (find_rfid_device f) = Inr (Some p) \<and> p \<noteq> [] \<and>
    fst (test_device_input io p 5) = PyFalse \<longrightarrow>
      start_listening f io st =
        (Inr StdinRead, st\<lparr>running := True, device_path := Some p\<rparr>,
         Log INFO Listener_starting # snd (find_rfid_device f) @
         snd (test_device_input io p 5) @ [Log WARNING Device_test_failed]))"
  by (auto simp: test_device_input_def probe_except_def start_listening_def Let_def split_beta)

theorem probe_failures_witness:
  "open_rb io_silent ''/dev/input/event3'' = None \<and> select_ready io_silent 5 = Inr False \<and>
   open_rb io_denied ''/dev/input/event3'' = Some PermissionError \<and>
   fst (find_rfid_device fs_reader) = Inr (Some ''/dev/input/event3'') \<and>
   fst (test_device_input io_denied ''/dev/input/event3'' 5) = PyFalse \<and>
   fst (start_listening fs_reader io_denied (EnhancedRFIDListener_init ''localhost'' 5000)) =
     Inr StdinRead \<and>
   fst (start_listening fs_reader io_silent (EnhancedRFIDListener_init ''localhost'' 5000)) =
     Inr StdinRead"
proof -
  let ?st = "EnhancedRFIDListener_init ''localhost'' 5000"
  let ?p = "''/dev/input/event3''"
  have o: "open_rb io_silent ?p = None" "select_ready io_silent 5 = Inr False"
    "open_rb io_denied ?p = Some PermissionError"
    by (simp_all add: io_silent_def io_denied_def)
  note a = probe_failures [where io = io_silent and p = ?p and t = 5 and f = fs_reader and st = ?st]
  note b = probe_failures [where io = io_denied and p = ?p and t = 5 and f = fs_reader and st = ?st]
  have 1: "fst (test_device_input io_silent ?p 5) = PyFalse" using a o by simp
  have 2: "fst (test_device_input io_denied ?p 5) = PyFalse" using b o by simp
  have 3: "fst (start_listening fs_reader io_silent ?st) = Inr StdinRead"
    using a 1 fs_reader_found by simp
  have 4: "fst (start_listening fs_reader io_denied ?st) = Inr StdinRead"
    using b 2 fs_reader_found by simp
  from o fs_reader_found 2 3 4 show ?thesis by simp
qed

section \<open>Stripping\<close>

lemma dropWhile_id: "xs = [] \<or> \<not> P (hd xs) \<Longrightarrow> dropWhile P xs = xs"
  by (cases xs) auto

lemma strip_idem: "py_strip (py_strip s) = py_strip s"
proof (cases "py_strip s = []")
  case True
  have "py_strip (py_strip s) = py_strip []" by (simp only: True)
  also have "\<dots> = []" by (simp add: py_strip_def)
  finally show ?thesis by (simp only: True)
next
  case False
  let ?zs = "dropWhile py_isspace (rev (dropWhile py_isspace s))"
  have s: "py_strip s = rev ?zs" by (simp add: py_strip_def)
  have 1: "dropWhile py_isspace (rev ?zs) = rev ?zs"
    using strip_hd [OF False] by (intro dropWhile_id) (simp add: s)
  have 2: "dropWhile py_isspace ?zs = ?zs" by simp
  have "py_strip (rev ?zs) = rev (dropWhile py_isspace (rev (dropWhile py_isspace (rev ?zs))))"
    by (simp only: py_strip_def)
  also have "\<dots> = rev ?zs" by (simp only: 1 rev_rev_ident 2)
  finally show ?thesis by (simp only: s)
qed

lemma not_valid_Nil: "\<not> is_valid_rfid []"
  by (simp add: is_valid_rfid_def)

lemma posts_process_scan_strip:
  "posts (snd (process_scan w (py_strip raw) st)) = posts (snd (process_scan w raw st))"
  by (simp add: process_scan_posts strip_idem)

lemma posts_process_scan_blank:
  "py_strip raw = [] \<Longrightarrow> posts (snd (process_scan w raw st)) = []"
  by (simp add: process_scan_posts not_valid_Nil)

lemma stdin_flush_posts:
  "running st \<Longrightarrow>
   posts (snd (read_rfid_from_stdin (st, buf) [(w, Inr (Some c))])) =
     (if terminator c then posts (snd (process_scan w buf st)) else [])"
  by (auto simp: terminator_def split_beta enh_process_scan_posts posts_process_scan_strip
      posts_process_scan_blank)

lemma posts_process_scan_Nil: "posts (snd (process_scan w [] st)) = []"
  by (simp add: posts_process_scan_blank py_strip_def)

lemma handle_flush_posts:
  "posts (snd (handle_input_char w c st)) =
     (if terminator c then posts (snd (process_scan w (scan_buffer st) st)) else [])"
proof (cases "terminator c")
  case False
  then show ?thesis by (simp add: handle_char)
next
  case True
  have e: "py_strip [] = []" by (simp add: py_strip_def)
  from True show ?thesis
    by (auto simp: terminator_def handle_input_char_def Let_def split_beta process_scan_posts
        timer_cancel_def e not_valid_Nil split: option.splits)
qed

lemma flush_posts:
  "posts (snd (flush_scan_buffer w st)) = posts (snd (process_scan w (scan_buffer st) st))"
  by (simp add: flush_scan_buffer_def Let_def split_beta posts_process_scan_Nil)

text \<open>
  C10: a scan is stripped of the whitespace at both ends before it is validated and
  sent. What is sent is the stripped string, whose length is what the shape rule
  bounds, and it neither starts nor ends with whitespace. Every place that flushes a
  buffer (a terminator or the timer in the scan assembler, a terminator in the stdin
  loop) sends what \<open>process_scan\<close> sends for that buffer.
\<close>

theorem scan_is_stripped:
  "posts (snd (process_scan w raw st)) =
     (if is_valid_rfid (py_strip raw) \<and> 1 \<le> clock w - last_scan_time st
      then [mk_request (flask_url st) (py_strip raw)] else []) \<and>
   posts (snd (enh_process_scan w raw st)) = posts (snd (process_scan w raw st)) \<and>
   (\<forall>r \<in> set (posts (snd (process_scan w raw st))).
      6 \<le> length (py_strip raw) \<and> length (py_strip raw) \<le> 20 \<and>
      req_json_rfid r = py_strip raw \<and>
      \<not> py_isspace (hd (req_json_rfid r)) \<and> \<not> py_isspace (last (req_json_rfid r))) \<and>
   posts (snd (handle_input_char w c m)) =
     (if terminator c then posts (snd (process_scan w (scan_buffer m) m)) else []) \<and>
   posts (snd (flush_scan_buffer w m)) = posts (snd (process_scan w (scan_buffer m) m)) \<and>
   (running st \<longrightarrow>
      posts (snd (read_rfid_from_stdin (st, raw) [(w, Inr (Some c))])) =
        (if terminator c then posts (snd (process_scan w raw st)) else []))"
proof -
  have "\<not> py_isspace (hd (py_strip raw)) \<and> \<not> py_isspace (last (py_strip raw))"
    if "is_valid_rfid (py_strip raw)"
    using that strip_hd [of raw] strip_last [of raw] is_valid_rfid_nonempty by blast
  then have "\<forall>r \<in> set (posts (snd (process_scan w raw st))).
      6 \<le> length (py_strip raw) \<and> length (py_strip raw) \<le> 20 \<and>
      req_json_rfid r = py_strip raw \<and>
      \<not> py_isspace (hd (req_json_rfid r)) \<and> \<not> py_isspace (last (req_json_rfid r))"
    by (auto simp: process_scan_posts mk_request_def is_valid_rfid_iff)
  then show ?thesis
    using process_scan_posts [of w raw st] enh_process_scan_posts [of w raw st]
      handle_flush_posts [of w c m] flush_posts [of w m] stdin_flush_posts [of st raw w c]
    by blast
qed

theorem scan_is_stripped_witness:
  "length ''          123456          '' = 26 \<and>
   deliveries (snd (process_scan (world_at 100) ''          123456          '' listener0)) = [''123456''] \<and>
   deliveries (snd (enh_process_scan (world_at 100) ''          123456          '' listener0)) = [''123456''] \<and>
   running listener0 \<and> terminator (CHR 0x0A) \<and>
   deliveries (snd (read_rfid_from_stdin (listener0, ''          123456          '')
      [(world_at 100, Inr (Some (CHR 0x0A)))])) = [''123456'']"
proof -
  let ?raw = "''          123456          ''"
  have s: "py_strip ?raw = ''123456''" by (simp add: py_strip_def py_isspace_def)
  have v: "is_valid_rfid ''123456''"
    by (simp add: is_valid_rfid_iff remove_spaces_def py_isalnum_char_def)
  have t: "1 \<le> clock (world_at 100) - last_scan_time listener0"
    by (simp add: world_at_def listener0_def)
  have r: "running listener0" by (simp add: listener0_def)
  have n: "terminator (CHR 0x0A)" by (simp add: terminator_def)
  note i = scan_is_stripped [where w = "world_at 100" and raw = ?raw and st = listener0
      and c = "CHR 0x0A" and m = machine0]
  note i1 = i [THEN conjunct1]
  note i2 = i [THEN conjunct2, THEN conjunct1]
  note i6 = i [THEN conjunct2, THEN conjunct2, THEN conjunct2, THEN conjunct2, THEN conjunct2]
  have 1: "posts (snd (process_scan (world_at 100) ?raw listener0)) =
      [mk_request (flask_url listener0) ''123456'']"
    using i1 v t by (simp only: s simp_thms if_True)
  have 2: "posts (snd (enh_process_scan (world_at 100) ?raw listener0)) =
      [mk_request (flask_url listener0) ''123456'']"
    using i2 1 by (simp only:)
  have 3: "posts (snd (read_rfid_from_stdin (listener0, ?raw)
      [(world_at 100, Inr (Some (CHR 0x0A)))])) = [mk_request (flask_url listener0) ''123456'']"
    using i6 r n 1 by (simp only: simp_thms if_True)
  have l: "length ?raw = 26" by simp
  show ?thesis
    unfolding deliveries_def 1 2 3 using l r n by (simp add: mk_request_def)
qed

end
